theory Spec2Isabelle
  imports Complex_Main "HOL-Library.Log_Nat"
begin

section \<open>Python values the controller computes with\<close>

text \<open>
  The script is \<^verbatim>\<open>bin/fan-control.py\<close>, run by \<^verbatim>\<open>python2\<close> (its first line): on
  integers \<^verbatim>\<open>/\<close> is floor division and \<^verbatim>\<open>%\<close> takes the sign of the divisor, which is what
  \<open>div\<close> and \<open>mod\<close> on \<open>int\<close> do. A float read from text or from the configuration is
  carried as the rational number that is written; where the script computes with floats,
  in \<^verbatim>\<open>getDutyRatio\<close>, every operation rounds to double precision. Every exception the
  code can raise is a value.
\<close>

datatype exn =
    IOError | ValueError | ZeroDivisionError | OverflowError | UnboundLocalError | KeyError
  | AttributeError | TypeError | RuntimeError | KeyboardInterrupt | SystemExit int

text \<open>\<^verbatim>\<open>except Exception\<close> catches every class but the two that derive from
  \<^verbatim>\<open>BaseException\<close> directly.\<close>

fun is_Exception :: "exn \<Rightarrow> bool" where
  "is_Exception KeyboardInterrupt = False"
| "is_Exception (SystemExit _) = False"
| "is_Exception _ = True"

subsection \<open>Decimal text\<close>

definition digit_char :: "nat \<Rightarrow> char" where
  "digit_char d = ''0123456789'' ! d"

definition is_digit :: "char \<Rightarrow> bool" where
  "is_digit c = (c \<in> set ''0123456789'')"

definition digit_val :: "char \<Rightarrow> nat" where
  "digit_val c = of_char c - 48"

definition is_space :: "char \<Rightarrow> bool" where
  "is_space c = (c \<in> {CHR '' '', CHR 0x09, CHR 0x0A, CHR 0x0B, CHR 0x0C, CHR 0x0D})"

definition strip :: "string \<Rightarrow> string" where
  "strip s = rev (dropWhile is_space (rev (dropWhile is_space s)))"

text \<open>\<^verbatim>\<open>"{}".format(n)\<close> for an integer: its decimal digits, after a minus sign when negative.\<close>

function str_nat :: "nat \<Rightarrow> string" where
  "str_nat n = (if n < 10 then [digit_char n] else str_nat (n div 10) @ [digit_char (n mod 10)])"
  by pat_completeness auto
termination
  by (relation "measure id") auto

declare str_nat.simps [simp del]

definition str_int :: "int \<Rightarrow> string" where
  "str_int i = (if i < 0 then CHR ''-'' # str_nat (nat (- i)) else str_nat (nat i))"

definition nat_of_digits :: "string \<Rightarrow> nat" where
  "nat_of_digits s = foldl (\<lambda>a c. 10 * a + digit_val c) 0 s"

text \<open>An optional sign in front of the rest of a literal.\<close>

fun split_sign :: "string \<Rightarrow> bool \<times> string" where
  "split_sign (c # cs) =
     (if c = CHR ''-'' then (True, cs) else if c = CHR ''+'' then (False, cs) else (False, c # cs))"
| "split_sign [] = (False, [])"

text \<open>
  \<^verbatim>\<open>int(t)\<close> on text, for the decimal syntax: white space around, an optional sign, one or
  more digits. Anything else is \<^verbatim>\<open>ValueError\<close>.
\<close>

definition py_int :: "string \<Rightarrow> exn + int" where
  "py_int t =
     (let (neg, ds) = split_sign (strip t)
      in if ds \<noteq> [] \<and> list_all is_digit ds
         then Inr (if neg then - int (nat_of_digits ds) else int (nat_of_digits ds))
         else Inl ValueError)"

text \<open>
  \<^verbatim>\<open>float(s)\<close> on text, for the syntax that the formatting of two integers around a point
  can produce: white space around, an optional sign, digits, a point, digits, with a digit
  on at least one side. Anything else is \<^verbatim>\<open>ValueError\<close> (exponents and the special values
  are not written by \<^verbatim>\<open>"{}.{}".format\<close>).
\<close>

definition py_float :: "string \<Rightarrow> exn + rat" where
  "py_float s =
     (let (neg, body) = split_sign (strip s);
          ip = takeWhile (\<lambda>c. c \<noteq> CHR ''.'') body;
          rest = dropWhile (\<lambda>c. c \<noteq> CHR ''.'') body;
          fp = tl rest
      in if list_all is_digit ip \<and> list_all is_digit fp \<and> (ip \<noteq> [] \<or> fp \<noteq> [])
         then let v = of_nat (nat_of_digits ip) + of_nat (nat_of_digits fp) / 10 ^ length fp
              in Inr (if neg then - v else v)
         else Inl ValueError)"

text \<open>\<^verbatim>\<open>int(x)\<close> on a float truncates towards zero.\<close>

definition py_trunc :: "rat \<Rightarrow> int" where
  "py_trunc x = (if 0 \<le> x then \<lfloor>x\<rfloor> else \<lceil>x\<rceil>)"

section \<open>The temperature sensor\<close>

text \<open>
  The body of the loop of \<^verbatim>\<open>getTemperature\<close> on one line \<open>t\<close> of the file: the value it
  assigns to \<^verbatim>\<open>cpu_temp\<close>, or the exception it raises.
\<close>

definition reconstruct :: "string \<Rightarrow> exn + rat" where
  "reconstruct t =
     (case py_int t of
        Inl e \<Rightarrow> Inl e
      | Inr r \<Rightarrow>
          (let temp1 = r div 1000;
               temp2 = r div 100
           in if temp1 = 0 then Inl ZeroDivisionError
              else let tempm = temp2 mod temp1
                   in py_float (str_int temp1 @ ''.'' @ str_int tempm)))"

text \<open>\<^verbatim>\<open>for t in f\<close>: each line overwrites \<^verbatim>\<open>cpu_temp\<close>, which is unbound before the
  first line; an exception leaves the loop.\<close>

fun read_lines :: "string list \<Rightarrow> rat option \<Rightarrow> exn + rat option" where
  "read_lines [] cpu_temp = Inr cpu_temp"
| "read_lines (t # ts) cpu_temp =
     (case reconstruct t of Inl e \<Rightarrow> Inl e | Inr v \<Rightarrow> read_lines ts (Some v))"

text \<open>
  The temperature source is what \<^verbatim>\<open>open(_CPU_TEMP, "r")\<close> finds: \<open>None\<close> when the file
  cannot be opened (\<^verbatim>\<open>IOError\<close>), else its lines. Reading \<^verbatim>\<open>cpu_temp\<close> after a loop over
  no line raises \<^verbatim>\<open>UnboundLocalError\<close>.
\<close>

definition getTemperature :: "string list option \<Rightarrow> exn + rat" where
  "getTemperature src =
     (case src of
        None \<Rightarrow> Inl IOError
      | Some ls \<Rightarrow>
          (case read_lines ls None of
             Inl e \<Rightarrow> Inl e
           | Inr None \<Rightarrow> Inl UnboundLocalError
           | Inr (Some cpu_temp) \<Rightarrow> Inr cpu_temp))"

text \<open>A line on which the loop body assigns a value.\<close>

definition line_ok :: "string \<Rightarrow> bool" where
  "line_ok t = (case reconstruct t of Inl _ \<Rightarrow> False | Inr _ \<Rightarrow> True)"

section \<open>Python numbers\<close>

subsection \<open>Floats\<close>

text \<open>
  A Python float is an IEEE double: a finite value, an infinity or NaN (the sign of zero
  is not kept: no operation below can tell the two zeros apart, a zero divisor is an
  exception in Python). \<open>fl\<close> rounds a rational number to the nearest double, ties to the
  even significand: the quantum of a number between \<open>2 ^ e\<close> and \<open>2 ^ (e + 1)\<close> is
  \<open>2 ^ (e - 52)\<close>, and not less than \<open>2 ^ - 1074\<close>; a result of magnitude \<open>2 ^ 1024\<close> is
  an infinity.
\<close>

datatype pyfloat = Finite rat | PosInf | NegInf | NaN

text \<open>The exponent \<open>e\<close> with \<open>2 ^ e \<le> x < 2 ^ (e + 1)\<close>, for a positive \<open>x\<close>.\<close>

definition log2_floor :: "rat \<Rightarrow> int" where
  "log2_floor x =
     (let (a, b) = quotient_of x; e = bitlen a - bitlen b
      in if 2 powi e \<le> x then e else e - 1)"

definition round_even :: "rat \<Rightarrow> int" where
  "round_even a =
     (let f = \<lfloor>a\<rfloor>; d = a - of_int f
      in if d < 1 / 2 then f else if 1 / 2 < d then f + 1 else if even f then f else f + 1)"

definition quantum :: "rat \<Rightarrow> int" where
  "quantum x = max (log2_floor \<bar>x\<bar> - 52) (- 1074)"

definition fl :: "rat \<Rightarrow> pyfloat" where
  "fl x =
     (if x = 0 then Finite 0
      else let q = quantum x; y = of_int (round_even (x / 2 powi q)) * 2 powi q
           in if 2 ^ 1024 \<le> y then PosInf else if y \<le> - (2 ^ 1024) then NegInf else Finite y)"

text \<open>The rational numbers that are doubles.\<close>

definition is_double :: "rat \<Rightarrow> bool" where
  "is_double x = (fl x = Finite x)"

fun fneg :: "pyfloat \<Rightarrow> pyfloat" where
  "fneg (Finite a) = Finite (- a)"
| "fneg PosInf = NegInf"
| "fneg NegInf = PosInf"
| "fneg NaN = NaN"

fun fadd :: "pyfloat \<Rightarrow> pyfloat \<Rightarrow> pyfloat" where
  "fadd (Finite a) (Finite b) = fl (a + b)"
| "fadd NaN _ = NaN"
| "fadd _ NaN = NaN"
| "fadd PosInf NegInf = NaN"
| "fadd NegInf PosInf = NaN"
| "fadd PosInf _ = PosInf"
| "fadd NegInf _ = NegInf"
| "fadd (Finite a) b = b"

definition fsub :: "pyfloat \<Rightarrow> pyfloat \<Rightarrow> pyfloat" where
  "fsub x y = fadd x (fneg y)"

fun fmul :: "pyfloat \<Rightarrow> pyfloat \<Rightarrow> pyfloat" where
  "fmul (Finite a) (Finite b) = fl (a * b)"
| "fmul NaN _ = NaN"
| "fmul _ NaN = NaN"
| "fmul (Finite a) b = (if a = 0 then NaN else if 0 < a then b else fneg b)"
| "fmul a (Finite b) = (if b = 0 then NaN else if 0 < b then a else fneg a)"
| "fmul a b = (if a = b then PosInf else NegInf)"

text \<open>The quotient by a float that is not zero.\<close>

fun fdiv :: "pyfloat \<Rightarrow> pyfloat \<Rightarrow> pyfloat" where
  "fdiv (Finite a) (Finite b) = fl (a / b)"
| "fdiv NaN _ = NaN"
| "fdiv _ NaN = NaN"
| "fdiv (Finite a) b = Finite 0"
| "fdiv a (Finite b) = (if 0 < b then a else fneg a)"
| "fdiv a b = NaN"

text \<open>\<^verbatim>\<open><\<close> and \<^verbatim>\<open><=\<close> on floats: false when an operand is NaN.\<close>

fun flt :: "pyfloat \<Rightarrow> pyfloat \<Rightarrow> bool" where
  "flt (Finite a) (Finite b) = (a < b)"
| "flt NaN _ = False"
| "flt _ NaN = False"
| "flt _ NegInf = False"
| "flt PosInf _ = False"
| "flt _ _ = True"

fun fle :: "pyfloat \<Rightarrow> pyfloat \<Rightarrow> bool" where
  "fle (Finite a) (Finite b) = (a \<le> b)"
| "fle NaN _ = False"
| "fle _ NaN = False"
| "fle NegInf _ = True"
| "fle _ PosInf = True"
| "fle _ _ = False"

subsection \<open>Integers and floats together\<close>

text \<open>
  An argument of \<^verbatim>\<open>getDutyRatio\<close> is an \<^verbatim>\<open>int\<close> (unbounded) or a \<^verbatim>\<open>float\<close>. An operation on
  two integers is the integer operation, Python 2's \<^verbatim>\<open>/\<close> being floor division; any other
  operation converts an integer operand to float, which rounds it and raises
  \<^verbatim>\<open>OverflowError\<close> when it is too large, and then is the float operation. A division by
  zero raises \<^verbatim>\<open>ZeroDivisionError\<close>. Comparisons between an integer and a float are exact.
\<close>

datatype num = PyInt int | PyFloat pyfloat

definition bind_exn :: "exn + 'a \<Rightarrow> ('a \<Rightarrow> exn + 'b) \<Rightarrow> exn + 'b" where
  "bind_exn m f = (case m of Inl e \<Rightarrow> Inl e | Inr x \<Rightarrow> f x)"

definition to_float :: "num \<Rightarrow> exn + pyfloat" where
  "to_float x =
     (case x of
        PyFloat f \<Rightarrow> Inr f
      | PyInt i \<Rightarrow> (case fl (of_int i) of Finite y \<Rightarrow> Inr (Finite y) | _ \<Rightarrow> Inl OverflowError))"

definition float_op :: "(pyfloat \<Rightarrow> pyfloat \<Rightarrow> pyfloat) \<Rightarrow> num \<Rightarrow> num \<Rightarrow> exn + num" where
  "float_op f x y = bind_exn (to_float x) (\<lambda>a. bind_exn (to_float y) (\<lambda>b. Inr (PyFloat (f a b))))"

fun num_sub :: "num \<Rightarrow> num \<Rightarrow> exn + num" where
  "num_sub (PyInt a) (PyInt b) = Inr (PyInt (a - b))"
| "num_sub x y = float_op fsub x y"

fun num_add :: "num \<Rightarrow> num \<Rightarrow> exn + num" where
  "num_add (PyInt a) (PyInt b) = Inr (PyInt (a + b))"
| "num_add x y = float_op fadd x y"

fun num_mul :: "num \<Rightarrow> num \<Rightarrow> exn + num" where
  "num_mul (PyInt a) (PyInt b) = Inr (PyInt (a * b))"
| "num_mul x y = float_op fmul x y"

text \<open>True division: both operands as floats.\<close>

definition float_div :: "num \<Rightarrow> num \<Rightarrow> exn + num" where
  "float_div x y =
     bind_exn (to_float x) (\<lambda>a. bind_exn (to_float y) (\<lambda>b.
       if b = Finite 0 then Inl ZeroDivisionError else Inr (PyFloat (fdiv a b))))"

text \<open>Python 2's \<^verbatim>\<open>/\<close>.\<close>

fun num_div :: "num \<Rightarrow> num \<Rightarrow> exn + num" where
  "num_div (PyInt a) (PyInt b) = (if b = 0 then Inl ZeroDivisionError else Inr (PyInt (a div b)))"
| "num_div x y = float_div x y"

fun num_lt :: "num \<Rightarrow> num \<Rightarrow> bool" where
  "num_lt (PyInt a) (PyInt b) = (a < b)"
| "num_lt (PyFloat x) (PyFloat y) = flt x y"
| "num_lt (PyInt a) (PyFloat y) = flt (Finite (of_int a)) y"
| "num_lt (PyFloat x) (PyInt b) = flt x (Finite (of_int b))"


text \<open>\<^verbatim>\<open>int(x)\<close> on a number: a float is truncated; an infinity is \<^verbatim>\<open>OverflowError\<close>, NaN is
  \<^verbatim>\<open>ValueError\<close>.\<close>

fun py_int_of :: "num \<Rightarrow> exn + int" where
  "py_int_of (PyInt i) = Inr i"
| "py_int_of (PyFloat (Finite x)) = Inr (py_trunc x)"
| "py_int_of (PyFloat NaN) = Inl ValueError"
| "py_int_of (PyFloat _) = Inl OverflowError"

section \<open>The duty ratio\<close>

text \<open>
  \<^verbatim>\<open>getDutyRatio(temp, high, low, duty_min)\<close>. The operands of
  \<^verbatim>\<open>((temp - low) / (high - low)) * (100 - duty_min) + duty_min\<close> are evaluated from left to
  right, each operation on the types its operands have.
\<close>

definition getDutyRatio :: "num \<Rightarrow> num \<Rightarrow> num \<Rightarrow> num \<Rightarrow> exn + int" where
  "getDutyRatio temp high low duty_min =
     (if num_lt high temp then Inr 100
      else if num_lt temp low then Inr 0
      else bind_exn (num_sub temp low) (\<lambda>a.
           bind_exn (num_sub high low) (\<lambda>b.
           bind_exn (num_div a b) (\<lambda>q.
           bind_exn (num_sub (PyInt 100) duty_min) (\<lambda>c.
           bind_exn (num_mul q c) (\<lambda>p.
           bind_exn (num_add p duty_min) (\<lambda>dr.
             if num_lt dr (PyInt 100) then py_int_of dr else Inr 100)))))))"


subsection \<open>Notions used in the proofs\<close>

text \<open>Rounding to the grid of quantum \<open>2 ^ q\<close>, and the overflow to an infinity.\<close>

definition rnd :: "int \<Rightarrow> rat \<Rightarrow> rat" where
  "rnd q x = of_int (round_even (x / 2 powi q)) * 2 powi q"

definition clip :: "rat \<Rightarrow> pyfloat" where
  "clip y = (if 2 ^ 1024 \<le> y then PosInf else if y \<le> - (2 ^ 1024) then NegInf else Finite y)"

text \<open>The smallest positive double.\<close>

definition tiny :: rat where
  "tiny = 2 powi (- 1074)"

text \<open>The order of the values the interpolation takes on its way: non-negative floats,
  then the infinity, then NaN (which the last test of \<^verbatim>\<open>getDutyRatio\<close> sends to 100).\<close>

fun ule :: "pyfloat \<Rightarrow> pyfloat \<Rightarrow> bool" where
  "ule (Finite a) (Finite b) = (0 \<le> a \<and> a \<le> b)"
| "ule (Finite a) PosInf = (0 \<le> a)"
| "ule (Finite a) NaN = (0 \<le> a)"
| "ule PosInf PosInf = True"
| "ule PosInf NaN = True"
| "ule NaN NaN = True"
| "ule _ _ = False"

definition pos_float :: "pyfloat \<Rightarrow> bool" where
  "pos_float b = (case b of Finite y \<Rightarrow> 0 < y | PosInf \<Rightarrow> True | _ \<Rightarrow> False)"

text \<open>The last line of \<^verbatim>\<open>getDutyRatio\<close> on a float \<^verbatim>\<open>dr\<close>.\<close>

definition clamp :: "pyfloat \<Rightarrow> exn + int" where
  "clamp dr = (if num_lt (PyFloat dr) (PyInt 100) then py_int_of (PyFloat dr) else Inr 100)"

text \<open>The raw float \<^verbatim>\<open>dr\<close> when the four arguments are floats; \<open>c\<close> is the float
  \<^verbatim>\<open>100 - duty_min\<close>.\<close>

definition raw_duty :: "rat \<Rightarrow> rat \<Rightarrow> rat \<Rightarrow> rat \<Rightarrow> rat \<Rightarrow> pyfloat" where
  "raw_duty t h l c m = fadd (fmul (fdiv (fl (t - l)) (fl (h - l))) (Finite c)) (Finite m)"

section \<open>The GPIO library\<close>

text \<open>
  \<^verbatim>\<open>RPi.GPIO\<close> is imported by the script, not part of it. Its state is modelled as far
  as the script's calls depend on it, with the checks the library makes: a channel is
  written only while the numbering mode is set and the channel is set up as an output
  (otherwise \<^verbatim>\<open>RuntimeError\<close>); a PWM object needs such a channel, no earlier PWM object on
  it and a positive frequency; a duty cycle lies between 0 and 100 (otherwise
  \<^verbatim>\<open>ValueError\<close>); \<^verbatim>\<open>GPIO.cleanup()\<close> returns every channel to input and forgets the
  numbering mode. Every call is appended to a trace, whether it succeeds or raises.
\<close>

datatype call =
    Setmode | Setup int | Output int bool | PWM_new int rat | PWM_start int rat
  | PWM_ChangeDutyCycle int rat | PWM_stop int | Cleanup

record gpio =
  mode_set :: bool
  configured_out :: "int set"
  driven_high :: "int set"
  pwm_exists :: "int set"
  pwm_duty :: "int \<rightharpoonup> rat"
  trace :: "call list"

text \<open>The library before the script's first call.\<close>

definition gpio_initial :: gpio where
  "gpio_initial = \<lparr>mode_set = False, configured_out = {}, driven_high = {}, pwm_exists = {},
                    pwm_duty = Map.empty, trace = []\<rparr>"

text \<open>A computation on the hardware returns a value or raises, and leaves a state
  either way.\<close>

type_synonym 'a io = "gpio \<Rightarrow> (exn + 'a) \<times> gpio"

definition return_io :: "'a \<Rightarrow> 'a io" where
  "return_io x = (\<lambda>hw. (Inr x, hw))"

definition raise :: "exn \<Rightarrow> 'a io" where
  "raise e = (\<lambda>hw. (Inl e, hw))"

definition bind_io :: "'a io \<Rightarrow> ('a \<Rightarrow> 'b io) \<Rightarrow> 'b io" where
  "bind_io m f = (\<lambda>hw. case m hw of (Inl e, hw') \<Rightarrow> (Inl e, hw') | (Inr x, hw') \<Rightarrow> f x hw')"

definition then_io :: "unit io \<Rightarrow> 'a io \<Rightarrow> 'a io" where
  "then_io m k = bind_io m (\<lambda>_. k)"

text \<open>The result of a computation that touches no hardware.\<close>

definition lift :: "exn + 'a \<Rightarrow> 'a io" where
  "lift r = (case r of Inl e \<Rightarrow> raise e | Inr x \<Rightarrow> return_io x)"

text \<open>\<^verbatim>\<open>d[k]\<close> on a dict: \<^verbatim>\<open>KeyError\<close> when the key is absent.\<close>

definition lookup :: "'a option \<Rightarrow> 'a io" where
  "lookup v = (case v of None \<Rightarrow> raise KeyError | Some x \<Rightarrow> return_io x)"

definition logged :: "call \<Rightarrow> gpio \<Rightarrow> gpio" where
  "logged c hw = hw\<lparr>trace := trace hw @ [c]\<rparr>"

definition GPIO_setmode :: "unit io" where
  "GPIO_setmode = (\<lambda>hw. (Inr (), (logged Setmode hw)\<lparr>mode_set := True\<rparr>))"

definition GPIO_setup :: "int \<Rightarrow> unit io" where
  "GPIO_setup ch = (\<lambda>hw.
     let hw = logged (Setup ch) hw
     in if \<not> mode_set hw then (Inl RuntimeError, hw)
        else (Inr (), hw\<lparr>configured_out := insert ch (configured_out hw)\<rparr>))"

definition GPIO_output :: "int \<Rightarrow> bool \<Rightarrow> unit io" where
  "GPIO_output ch v = (\<lambda>hw.
     let hw = logged (Output ch v) hw
     in if \<not> mode_set hw \<or> ch \<notin> configured_out hw then (Inl RuntimeError, hw)
        else (Inr (), hw\<lparr>driven_high :=
                 (if v then insert ch (driven_high hw) else driven_high hw - {ch})\<rparr>))"

text \<open>\<^verbatim>\<open>GPIO.PWM(channel, frequency)\<close>; the object is identified by its channel.\<close>

definition GPIO_PWM :: "int \<Rightarrow> rat \<Rightarrow> int io" where
  "GPIO_PWM ch frequency = (\<lambda>hw.
     let hw = logged (PWM_new ch frequency) hw
     in if \<not> mode_set hw \<or> ch \<in> pwm_exists hw \<or> ch \<notin> configured_out hw
        then (Inl RuntimeError, hw)
        else if frequency \<le> 0 then (Inl ValueError, hw)
        else (Inr ch, hw\<lparr>pwm_exists := insert ch (pwm_exists hw)\<rparr>))"

definition PWM_start_m :: "int \<Rightarrow> rat \<Rightarrow> unit io" where
  "PWM_start_m p dc = (\<lambda>hw.
     let hw = logged (PWM_start p dc) hw
     in if dc < 0 \<or> 100 < dc then (Inl ValueError, hw)
        else (Inr (), hw\<lparr>pwm_duty := (pwm_duty hw)(p \<mapsto> dc)\<rparr>))"

definition PWM_ChangeDutyCycle_m :: "int \<Rightarrow> rat \<Rightarrow> unit io" where
  "PWM_ChangeDutyCycle_m p dc = (\<lambda>hw.
     let hw = logged (PWM_ChangeDutyCycle p dc) hw
     in if dc < 0 \<or> 100 < dc then (Inl ValueError, hw)
        else (Inr (), if pwm_duty hw p = None then hw
                      else hw\<lparr>pwm_duty := (pwm_duty hw)(p \<mapsto> dc)\<rparr>))"

definition PWM_stop_m :: "int \<Rightarrow> unit io" where
  "PWM_stop_m p = (\<lambda>hw. (Inr (), (logged (PWM_stop p) hw)\<lparr>pwm_duty := (pwm_duty hw)(p := None)\<rparr>))"

definition GPIO_cleanup :: "unit io" where
  "GPIO_cleanup = (\<lambda>hw. (Inr (), (logged Cleanup hw)\<lparr>configured_out := {}, mode_set := False\<rparr>))"

text \<open>\<^verbatim>\<open>time.sleep(secs)\<close>: Python 2 raises \<^verbatim>\<open>IOError\<close> on a negative argument.\<close>

definition time_sleep :: "int \<Rightarrow> unit io" where
  "time_sleep secs = (if secs < 0 then raise IOError else return_io ())"

section \<open>Configuration\<close>

text \<open>
  A configuration is a dict whose keys are the ones the script names; a field is \<open>None\<close>
  when its key is absent. The values have the types of the defaults in \<^verbatim>\<open>CONFIG\<close>.
\<close>

record pwm_conf =
  FREQ :: "rat option"
  DUTY_RATIO_MIN :: "rat option"
  TEMP_MAX :: "rat option"
  TEMP_MIN :: "rat option"

record conf =
  GPIO_FAN :: "int option"
  TEMP_THRESHOLD :: "rat option"
  MODE :: "string option"
  PWM :: "pwm_conf option"
  SLEEP_TIME :: "int option"

definition CONFIG :: conf where
  "CONFIG = \<lparr>GPIO_FAN = Some 12, TEMP_THRESHOLD = Some 70, MODE = None,
             PWM = Some \<lparr>FREQ = Some 50, DUTY_RATIO_MIN = Some 70,
                         TEMP_MAX = Some 85, TEMP_MIN = Some 65\<rparr>,
             SLEEP_TIME = Some 30\<rparr>"

text \<open>\<^verbatim>\<open>config.update(user_conf)\<close>: every key of the second dict replaces the entry of
  the first, the \<^verbatim>\<open>pwm\<close> block as a whole.\<close>

definition override :: "'a option \<Rightarrow> 'a option \<Rightarrow> 'a option" where
  "override old new = (case new of None \<Rightarrow> old | Some v \<Rightarrow> Some v)"

definition update_conf :: "conf \<Rightarrow> conf \<Rightarrow> conf" where
  "update_conf c u =
     \<lparr>GPIO_FAN = override (GPIO_FAN c) (GPIO_FAN u),
      TEMP_THRESHOLD = override (TEMP_THRESHOLD c) (TEMP_THRESHOLD u),
      MODE = override (MODE c) (MODE u),
      PWM = override (PWM c) (PWM u),
      SLEEP_TIME = override (SLEEP_TIME c) (SLEEP_TIME u)\<rparr>"

text \<open>\<^verbatim>\<open>loadConfig\<close>; the argument is \<open>None\<close> without a configuration file, else the dict
  that \<^verbatim>\<open>yaml.load\<close> made of the file.\<close>

definition loadConfig :: "conf option \<Rightarrow> conf" where
  "loadConfig config_file =
     (case config_file of
        None \<Rightarrow> CONFIG
      | Some user_conf \<Rightarrow>
          (let config = CONFIG;
               config = (if PWM user_conf \<noteq> None then config\<lparr>MODE := Some ''pwm''\<rparr> else config)
           in update_conf config user_conf))"

section \<open>The fan controller\<close>

datatype strategy = OnOffControl | PwmControl

record fan =
  config :: conf
  pwm :: "int option"
  control :: strategy
  config_pwm :: "pwm_conf option"

text \<open>\<^verbatim>\<open>Fan.__init__\<close>. The attribute \<^verbatim>\<open>config_pwm\<close> exists only after the PWM branch.\<close>

definition Fan_init :: "conf \<Rightarrow> fan io" where
  "Fan_init cfg =
     then_io GPIO_setmode
    (bind_io (lookup (GPIO_FAN cfg)) (\<lambda>ch.
     then_io (GPIO_setup ch)
    (if MODE cfg \<noteq> None \<and> PWM cfg \<noteq> None
     then bind_io (lookup (PWM cfg)) (\<lambda>cp.
          bind_io (lookup (GPIO_FAN cfg)) (\<lambda>ch'.
          bind_io (lookup (FREQ cp)) (\<lambda>frequency.
          bind_io (GPIO_PWM ch' frequency) (\<lambda>p.
          then_io (PWM_start_m p 0)
         (return_io \<lparr>config = cfg, pwm = Some p, control = PwmControl,
                     config_pwm = Some cp\<rparr>)))))
     else return_io \<lparr>config = cfg, pwm = None, control = OnOffControl, config_pwm = None\<rparr>)))"

definition off :: "fan \<Rightarrow> unit io" where
  "off self = bind_io (lookup (GPIO_FAN (config self))) (\<lambda>ch. GPIO_output ch False)"

definition on :: "fan \<Rightarrow> unit io" where
  "on self = bind_io (lookup (GPIO_FAN (config self))) (\<lambda>ch. GPIO_output ch True)"

definition clean_up :: "fan \<Rightarrow> unit io" where
  "clean_up self =
     then_io (case pwm self of None \<Rightarrow> return_io () | Some p \<Rightarrow> PWM_stop_m p)
    (then_io (off self) GPIO_cleanup)"

definition on_off_control :: "fan \<Rightarrow> rat \<Rightarrow> unit io" where
  "on_off_control self cpu_temp =
     bind_io (lookup (TEMP_THRESHOLD (config self))) (\<lambda>thr.
       if cpu_temp > thr then on self else off self)"

text \<open>An attribute that was never assigned, or a method of \<^verbatim>\<open>None\<close>, is
  \<^verbatim>\<open>AttributeError\<close>.\<close>

definition attribute :: "'a option \<Rightarrow> 'a io" where
  "attribute v = (case v of None \<Rightarrow> raise AttributeError | Some x \<Rightarrow> return_io x)"

text \<open>The temperature and the values of the \<^verbatim>\<open>pwm\<close> block reach \<^verbatim>\<open>getDutyRatio\<close> as
  floats: the doubles nearest to the numbers written.\<close>

definition pwm_control :: "fan \<Rightarrow> rat \<Rightarrow> unit io" where
  "pwm_control self cpu_temp =
     bind_io (attribute (config_pwm self)) (\<lambda>cp.
     bind_io (lookup (TEMP_MAX cp)) (\<lambda>t_max.
     bind_io (lookup (TEMP_MIN cp)) (\<lambda>t_min.
     bind_io (lookup (DUTY_RATIO_MIN cp)) (\<lambda>d_min.
     bind_io (lift (getDutyRatio (PyFloat (fl cpu_temp)) (PyFloat (fl t_max))
                      (PyFloat (fl t_min)) (PyFloat (fl d_min)))) (\<lambda>duty.
     bind_io (attribute (pwm self)) (\<lambda>p.
       PWM_ChangeDutyCycle_m p (of_int duty)))))))"

text \<open>\<^verbatim>\<open>self.control(cpu_temp)\<close>: the bound method stored by the constructor.\<close>

definition apply_control :: "fan \<Rightarrow> rat \<Rightarrow> unit io" where
  "apply_control self cpu_temp =
     (case control self of
        OnOffControl \<Rightarrow> on_off_control self cpu_temp
      | PwmControl \<Rightarrow> pwm_control self cpu_temp)"

text \<open>
  What happens to the process while \<^verbatim>\<open>run\<close> is running: an iteration that finds the
  temperature source in some state, or a signal that arrives between two iterations.
\<close>

datatype event = Sample "string list option" | Interrupt | Terminate

text \<open>
  \<^verbatim>\<open>Fan.run\<close>, \<^verbatim>\<open>while True\<close>. The loop never returns; the list of events is the part of
  its execution that is observed, and the result \<open>Inr ()\<close> says that the loop is still
  running when the list ends. \<open>on_sigterm\<close> is the handler installed for \<^verbatim>\<open>SIGTERM\<close>.
\<close>

fun run :: "fan \<Rightarrow> unit io \<Rightarrow> event list \<Rightarrow> unit io" where
  "run self on_sigterm [] = return_io ()"
| "run self on_sigterm (Sample src # evs) =
     then_io (bind_io (lift (getTemperature src)) (apply_control self))
    (then_io (bind_io (lookup (SLEEP_TIME (config self))) time_sleep)
    (run self on_sigterm evs))"
| "run self on_sigterm (Interrupt # evs) = raise KeyboardInterrupt"
| "run self on_sigterm (Terminate # evs) = then_io on_sigterm (run self on_sigterm evs)"

text \<open>\<^verbatim>\<open>SignalHandler.handler\<close> around \<^verbatim>\<open>fan.clean_up\<close>: clean up, then \<^verbatim>\<open>sys.exit(0)\<close>.\<close>

definition handler :: "fan \<Rightarrow> unit io" where
  "handler self = then_io (clean_up self) (raise (SystemExit 0))"

text \<open>How \<^verbatim>\<open>main\<close> ends: it returns after its last log line, an exception leaves it, or
  the loop is still running.\<close>

datatype outcome = Returned | Uncaught exn | Looping

text \<open>The \<^verbatim>\<open>except\<close> clauses of \<^verbatim>\<open>main\<close>, in their order, for an exception raised while
  \<^verbatim>\<open>fan\<close> is bound.\<close>

definition handle_exn :: "fan \<Rightarrow> exn \<Rightarrow> gpio \<Rightarrow> outcome \<times> gpio" where
  "handle_exn self e hw =
     (if e = KeyboardInterrupt \<or> e = TypeError
      then (case clean_up self hw of
              (Inl e', hw') \<Rightarrow> (Uncaught e', hw')
            | (Inr _, hw') \<Rightarrow> (Returned, hw'))
      else if is_Exception e then (Returned, hw)
      else (Uncaught e, hw))"

text \<open>The same clauses for an exception of the constructor: \<^verbatim>\<open>fan\<close> is unbound, and the
  two clauses that name it raise \<^verbatim>\<open>UnboundLocalError\<close>.\<close>

definition handle_exn_unbound :: "exn \<Rightarrow> gpio \<Rightarrow> outcome \<times> gpio" where
  "handle_exn_unbound e hw =
     (if e = KeyboardInterrupt \<or> e = TypeError then (Uncaught UnboundLocalError, hw)
      else if is_Exception e then (Returned, hw)
      else (Uncaught e, hw))"

definition main :: "conf option \<Rightarrow> event list \<Rightarrow> gpio \<Rightarrow> outcome \<times> gpio" where
  "main config_file evs hw =
     (case Fan_init (loadConfig config_file) hw of
        (Inl e, hw1) \<Rightarrow> handle_exn_unbound e hw1
      | (Inr self, hw1) \<Rightarrow>
          (case run self (handler self) evs hw1 of
             (Inl e, hw2) \<Rightarrow> handle_exn self e hw2
           | (Inr _, hw2) \<Rightarrow> (Looping, hw2)))"

subsection \<open>Configuration files used as examples\<close>

text \<open>A file with only a \<^verbatim>\<open>pwm\<close> block whose bounds are inverted
  (\<^verbatim>\<open>temp_min: 85\<close>, \<^verbatim>\<open>temp_max: 65\<close>).\<close>

definition user_conf_inverted :: conf where
  "user_conf_inverted =
     \<lparr>GPIO_FAN = None, TEMP_THRESHOLD = None, MODE = None,
      PWM = Some \<lparr>FREQ = Some 50, DUTY_RATIO_MIN = Some 70,
                  TEMP_MAX = Some 65, TEMP_MIN = Some 85\<rparr>,
      SLEEP_TIME = None\<rparr>"

text \<open>A file with only a \<^verbatim>\<open>pwm\<close> block that gives the frequency and no bound.\<close>

definition user_conf_incomplete :: conf where
  "user_conf_incomplete =
     \<lparr>GPIO_FAN = None, TEMP_THRESHOLD = None, MODE = None,
      PWM = Some \<lparr>FREQ = Some 50, DUTY_RATIO_MIN = None, TEMP_MAX = None, TEMP_MIN = None\<rparr>,
      SLEEP_TIME = None\<rparr>"

section \<open>Decimal text: rendering and reading\<close>

lemma digit_cases:
  "d < 10 \<Longrightarrow> d = 0 \<or> d = 1 \<or> d = 2 \<or> d = 3 \<or> d = 4 \<or> d = 5 \<or> d = 6 \<or> d = 7 \<or> d = 8 \<or> d = (9::nat)"
  by arith

lemma digit_char_props:
  assumes "d < 10"
  shows "is_digit (digit_char d)" and "digit_val (digit_char d) = d"
  using digit_cases [OF assms]
  by (auto simp: digit_char_def is_digit_def digit_val_def)

lemma is_digit_plain:
  assumes "is_digit c"
  shows "\<not> is_space c" and "c \<noteq> CHR ''.''" and "c \<noteq> CHR ''-''" and "c \<noteq> CHR ''+''"
  using assms by (auto simp: is_digit_def is_space_def)

lemma str_nat_digits: "list_all is_digit (str_nat n)"
proof (induction n rule: str_nat.induct)
  case (1 n)
  show ?case
  proof (cases "n < 10")
    case True
    then show ?thesis by (simp add: str_nat.simps [of n] digit_char_props)
  next
    case False
    with 1 show ?thesis by (simp add: str_nat.simps [of n] digit_char_props)
  qed
qed

lemma str_nat_nonempty: "str_nat n \<noteq> []"
  by (simp add: str_nat.simps [of n])

lemma nat_of_digits_snoc: "nat_of_digits (ds @ [c]) = 10 * nat_of_digits ds + digit_val c"
  by (simp add: nat_of_digits_def)

lemma nat_of_digits_str_nat: "nat_of_digits (str_nat n) = n"
proof (induction n rule: str_nat.induct)
  case (1 n)
  show ?case
  proof (cases "n < 10")
    case True
    then show ?thesis by (simp add: str_nat.simps [of n] nat_of_digits_def digit_char_props)
  next
    case False
    with 1 show ?thesis
      by (simp add: str_nat.simps [of n] nat_of_digits_snoc digit_char_props)
  qed
qed

lemma strip_plain:
  assumes "s \<noteq> []" and "\<not> is_space (hd s)" and "\<not> is_space (last s)"
  shows "strip s = s"
proof -
  from assms have a: "dropWhile is_space s = s" by (cases s) auto
  from assms have "rev s \<noteq> []" and "\<not> is_space (hd (rev s))" by (simp_all add: hd_rev)
  then have "dropWhile is_space (rev s) = rev s" by (cases "rev s") auto
  with a show ?thesis by (simp add: strip_def)
qed

lemma split_sign_digit:
  assumes "s \<noteq> []" and "is_digit (hd s)"
  shows "split_sign s = (False, s)"
  using assms by (cases s) (auto dest: is_digit_plain)

lemma py_float_digits:
  assumes ip: "list_all is_digit ip" "ip \<noteq> []" and fp: "list_all is_digit fp" "fp \<noteq> []"
  shows "py_float (ip @ ''.'' @ fp) =
         Inr (of_nat (nat_of_digits ip) + of_nat (nat_of_digits fp) / 10 ^ length fp)"
proof -
  let ?s = "ip @ ''.'' @ fp"
  let ?P = "\<lambda>c. c \<noteq> CHR ''.''"
  from ip have hd: "is_digit (hd ?s)" by (cases ip) auto
  from fp have "is_digit (last fp)" by (simp add: list_all_iff)
  with fp have last: "is_digit (last ?s)" by simp
  have ne: "?s \<noteq> []" by simp
  have strip: "strip ?s = ?s"
    using ne is_digit_plain(1) [OF hd] is_digit_plain(1) [OF last] by (rule strip_plain)
  have sign: "split_sign ?s = (False, ?s)"
    using ne hd by (rule split_sign_digit)
  have all: "\<forall>c\<in>set ip. ?P c"
    using ip by (auto simp: list_all_iff dest: is_digit_plain)
  have tw: "takeWhile ?P ?s = ip"
    using all by simp
  have dw: "dropWhile ?P ?s = ''.'' @ fp"
    using all by simp
  show ?thesis
    unfolding py_float_def strip sign using ip fp tw dw by simp
qed

lemma str_int_nonneg: "0 \<le> i \<Longrightarrow> str_int i = str_nat (nat i)"
  by (simp add: str_int_def)

lemma str_nat_digit: "d < 10 \<Longrightarrow> str_nat d = [digit_char d]"
  by (simp add: str_nat.simps [of d])

text \<open>A whole part and one digit after the point read back as the number they spell.\<close>

lemma py_float_format:
  assumes "0 \<le> w" and "0 \<le> f" and "f < 10"
  shows "py_float (str_int w @ ''.'' @ str_int f) = Inr (of_int w + of_int f / 10)"
proof -
  from assms have f: "str_int f = [digit_char (nat f)]"
    by (simp add: str_int_nonneg str_nat_digit)
  have d: "list_all is_digit [digit_char (nat f)]"
    using assms by (simp add: digit_char_props)
  have "py_float (str_nat (nat w) @ ''.'' @ [digit_char (nat f)]) =
        Inr (of_nat (nat_of_digits (str_nat (nat w))) +
             of_nat (nat_of_digits [digit_char (nat f)]) / 10 ^ length [digit_char (nat f)])"
    using str_nat_digits str_nat_nonempty d by (rule py_float_digits) simp
  moreover have "nat_of_digits [digit_char (nat f)] = nat f"
    using assms by (simp add: nat_of_digits_def digit_char_props)
  ultimately show ?thesis
    using assms by (simp add: f str_int_nonneg nat_of_digits_str_nat)
qed

lemmas py_int_eval = py_int_def strip_def is_space_def is_digit_def nat_of_digits_def digit_val_def

section \<open>The temperature sensor\<close>

text \<open>From 1000 on, the remainder of the hundreds by the thousands is below ten: it is
  the tenths digit reduced modulo the whole part.\<close>

lemma tenths_digit:
  assumes "1000 \<le> (r::int)"
  shows "0 \<le> (r div 100) mod (r div 1000) \<and> (r div 100) mod (r div 1000) < 10"
proof -
  define a where "a = r div 100"
  define w where "w = r div 1000"
  have "r div (100 * 10) = r div 100 div 10"
    by (rule zdiv_zmult2_eq) simp
  then have w: "w = a div 10" by (simp add: a_def w_def)
  from assms have w1: "1 \<le> w" by (simp add: w_def)
  have "a = a mod 10 + w * 10" by (simp add: w)
  then have "a mod w = (a mod 10 + w * 10) mod w" by simp
  also have "\<dots> = (a mod 10) mod w" by simp
  finally have eq: "a mod w = (a mod 10) mod w" .
  have "(a mod 10) mod w \<le> a mod 10"
    by (rule zmod_le_nonneg_dividend) simp
  moreover have "a mod 10 < 10" by simp
  moreover from w1 have "0 \<le> a mod w" by simp
  ultimately show ?thesis using eq unfolding a_def w_def by linarith
qed

lemma getTemperature_single: "getTemperature (Some [t]) = reconstruct t"
  by (simp add: getTemperature_def split: sum.splits)

lemma reconstruct_text:
  assumes "py_int t = Inr r" and "r div 1000 \<noteq> 0"
  shows "reconstruct t =
           py_float (str_int (r div 1000) @ ''.'' @ str_int (r div 100 mod (r div 1000)))"
  using assms by (simp add: reconstruct_def Let_def)

lemma reconstruct_value:
  assumes "py_int t = Inr r" and "1000 \<le> r"
  shows "reconstruct t = Inr (of_int (r div 1000) + of_int (r div 100 mod (r div 1000)) / 10)"
proof -
  from assms(2) have w: "r div 1000 \<noteq> 0" and w0: "0 \<le> r div 1000" by simp_all
  from tenths_digit [OF assms(2)] w0
  have "py_float (str_int (r div 1000) @ ''.'' @ str_int (r div 100 mod (r div 1000))) =
        Inr (of_int (r div 1000) + of_int (r div 100 mod (r div 1000)) / 10)"
    by (intro py_float_format) simp_all
  then show ?thesis by (simp only: reconstruct_text [OF assms(1) w])
qed

lemma line_45123: "reconstruct ''45123\<newline>'' = Inr (451 / 10)"
proof -
  have "py_int ''45123\<newline>'' = Inr 45123" by (simp add: py_int_eval)
  from reconstruct_value [OF this] show ?thesis by simp
qed

lemma line_50000: "reconstruct ''50000\<newline>'' = Inr 50"
proof -
  have "py_int ''50000\<newline>'' = Inr 50000" by (simp add: py_int_eval)
  from reconstruct_value [OF this] show ?thesis by simp
qed

lemma line_blank: "reconstruct ''\<newline>'' = Inl ValueError"
  by (simp add: reconstruct_def py_int_eval)

lemma read_lines_ok_prefix:
  "list_all line_ok ls \<Longrightarrow> \<exists>acc'. \<forall>ts. read_lines (ls @ ts) acc = read_lines ts acc'"
proof (induction ls arbitrary: acc)
  case Nil
  show ?case by auto
next
  case (Cons l ls)
  from Cons.prems have ok: "list_all line_ok ls" and "line_ok l" by simp_all
  then obtain v where v: "reconstruct l = Inr v"
    by (cases "reconstruct l") (simp_all add: line_ok_def)
  from Cons.IH [OF ok, of "Some v"] show ?case by (simp add: v)
qed

text \<open>
  Claim C7. For a raw reading \<open>r\<close> of at least 1000, \<^verbatim>\<open>getTemperature\<close> returns the float
  read from the text made of \<open>r div 1000\<close>, a point and \<open>(r div 100) mod (r div 1000)\<close>;
  the second part is a single digit, so the value is the whole part plus that digit over
  ten. For 45123 this is 45.1.
\<close>

theorem getTemperature_reconstruction:
  assumes "py_int t = Inr r" and "1000 \<le> r"
  shows "getTemperature (Some [t]) =
           py_float (str_int (r div 1000) @ ''.'' @ str_int (r div 100 mod (r div 1000)))
       \<and> getTemperature (Some [t]) =
           Inr (of_int (r div 1000) + of_int (r div 100 mod (r div 1000)) / 10)"
proof -
  from assms(2) have "r div 1000 \<noteq> 0" by simp
  from reconstruct_text [OF assms(1) this] reconstruct_value [OF assms]
  show ?thesis by (simp only: getTemperature_single)
qed

theorem getTemperature_reconstruction_witness:
  "py_int ''45123\<newline>'' = Inr 45123 \<and> (1000::int) \<le> 45123 \<and>
   getTemperature (Some [''45123\<newline>'']) = Inr (451 / 10)"
proof -
  have h: "py_int ''45123\<newline>'' = Inr 45123" by (simp add: py_int_eval)
  have "(1000::int) \<le> 45123" by simp
  from getTemperature_reconstruction [OF h this, THEN conjunct2] h show ?thesis by simp
qed

text \<open>
  Claim C8. A raw reading from 0 to 999 has whole part 0, which is the divisor of the
  remainder: \<^verbatim>\<open>getTemperature\<close> raises \<^verbatim>\<open>ZeroDivisionError\<close> and returns no float.
\<close>

theorem getTemperature_below_one_degree:
  "getTemperature (Some [''500\<newline>'']) = Inl ZeroDivisionError \<and>
   getTemperature (Some [''0\<newline>'']) = Inl ZeroDivisionError \<and>
   getTemperature (Some [''999\<newline>'']) = Inl ZeroDivisionError"
  by (simp add: getTemperature_single reconstruct_def py_int_eval)

text \<open>
  Claim C9, as stated, fails: a line that does not parse is not skipped. After a good
  line, or before one, a blank line makes the whole read raise \<^verbatim>\<open>ValueError\<close>.
\<close>

theorem getTemperature_unparsed_line_counterexample:
  "reconstruct ''45123\<newline>'' = Inr (451 / 10) \<and>
   py_int ''\<newline>'' = Inl ValueError \<and>
   getTemperature (Some [''45123\<newline>'', ''\<newline>'']) = Inl ValueError \<and>
   getTemperature (Some [''\<newline>'', ''45123\<newline>'']) = Inl ValueError"
proof -
  have "py_int ''\<newline>'' = Inl ValueError" by (simp add: py_int_eval)
  then show ?thesis by (simp add: getTemperature_def line_45123 line_blank)
qed

text \<open>
  Claim C9, amended. When every earlier line yields a value, the result is that of the
  last line alone, whatever the earlier values were; and the first line on which the loop
  body raises ends the read with that exception, whatever follows it.
\<close>

theorem getTemperature_last_line:
  assumes "list_all line_ok ls"
  shows "getTemperature (Some (ls @ [t])) = reconstruct t
       \<and> (\<forall>e ts. reconstruct t = Inl e \<longrightarrow> getTemperature (Some (ls @ t # ts)) = Inl e)"
proof -
  from read_lines_ok_prefix [OF assms, of None]
  obtain acc' where a: "\<And>ts. read_lines (ls @ ts) None = read_lines ts acc'" by blast
  show ?thesis
    by (auto simp: getTemperature_def a split: sum.splits option.splits)
qed

theorem getTemperature_last_line_witness:
  "list_all line_ok [''45123\<newline>''] \<and>
   getTemperature (Some [''45123\<newline>'', ''50000\<newline>'']) = Inr 50 \<and>
   reconstruct ''\<newline>'' = Inl ValueError \<and>
   getTemperature (Some [''45123\<newline>'', ''\<newline>'', ''50000\<newline>'']) = Inl ValueError"
proof -
  have ok: "list_all line_ok [''45123\<newline>'']" by (simp add: line_ok_def line_45123)
  from getTemperature_last_line [OF ok, of "''50000\<newline>''"] line_50000
  have 1: "getTemperature (Some [''45123\<newline>'', ''50000\<newline>'']) = Inr 50" by simp
  from getTemperature_last_line [OF ok, of "''\<newline>''"] line_blank
  have 2: "getTemperature (Some [''45123\<newline>'', ''\<newline>'', ''50000\<newline>'']) = Inl ValueError"
    by simp
  from ok 1 line_blank 2 show ?thesis by blast
qed

section \<open>Rounding to double precision\<close>

lemma round_even_of_int: "round_even (of_int n) = n"
  by (simp add: round_even_def)

lemma round_even_bounds: "\<lfloor>a\<rfloor> \<le> round_even a \<and> round_even a \<le> \<lfloor>a\<rfloor> + 1"
  by (simp add: round_even_def Let_def)

lemma round_even_mono:
  assumes "a \<le> b"
  shows "round_even a \<le> round_even b"
proof (cases "\<lfloor>a\<rfloor> = \<lfloor>b\<rfloor>")
  case True
  with assms show ?thesis by (auto simp: round_even_def Let_def)
next
  case False
  with assms have "\<lfloor>a\<rfloor> + 1 \<le> \<lfloor>b\<rfloor>" using floor_mono [OF assms] by linarith
  with round_even_bounds [of a] round_even_bounds [of b] show ?thesis by linarith
qed

lemma log2_floor_bounds:
  assumes "0 < x"
  shows "2 powi (log2_floor x) \<le> x \<and> x < 2 powi (log2_floor x + 1)"
proof -
  obtain a b where q: "quotient_of x = (a, b)" by (cases "quotient_of x")
  then have b: "0 < b" and x: "x = of_int a / of_int b"
    by (simp_all add: quotient_of_denom_pos quotient_of_div)
  with assms have a: "0 < a" by (simp add: zero_less_divide_iff)
  define la lb where "la = bitlen a" and "lb = bitlen b"
  from bitlen_bounds [OF a] have a1: "2 ^ nat (la - 1) \<le> a" and a2: "a < 2 ^ nat la"
    by (simp_all add: la_def)
  from bitlen_bounds [OF b] have b1: "2 ^ nat (lb - 1) \<le> b" and b2: "b < 2 ^ nat lb"
    by (simp_all add: lb_def)
  have la: "1 \<le> la" and lb: "1 \<le> lb"
    using a b bitlen_eq_zero_iff [of a] bitlen_eq_zero_iff [of b] bitlen_nonneg [of a] bitlen_nonneg [of b]
    by (auto simp: la_def lb_def)
  have A1: "(2::rat) powi (la - 1) \<le> of_int a"
  proof -
    from a1 have "rat_of_int (2 ^ nat (la - 1)) \<le> of_int a" by (simp only: of_int_le_iff)
    with la show ?thesis by (simp add: power_int_def)
  qed
  have A2: "of_int a < (2::rat) powi la"
  proof -
    from a2 have "rat_of_int a < of_int (2 ^ nat la)" by (simp only: of_int_less_iff)
    with la show ?thesis by (simp add: power_int_def)
  qed
  have B1: "(2::rat) powi (lb - 1) \<le> of_int b"
  proof -
    from b1 have "rat_of_int (2 ^ nat (lb - 1)) \<le> of_int b" by (simp only: of_int_le_iff)
    with lb show ?thesis by (simp add: power_int_def)
  qed
  have B2: "of_int b < (2::rat) powi lb"
  proof -
    from b2 have "rat_of_int b < of_int (2 ^ nat lb)" by (simp only: of_int_less_iff)
    with lb show ?thesis by (simp add: power_int_def)
  qed
  have bpos: "(0::rat) < of_int b" using b by simp
  have upper: "x < 2 powi (la - lb + 1)"
  proof -
    have "of_int a < (2::rat) powi la" by (rule A2)
    also have "(2::rat) powi la = 2 powi (la - lb + 1) * 2 powi (lb - 1)"
      by (simp flip: power_int_add)
    also have "\<dots> \<le> 2 powi (la - lb + 1) * of_int b"
      using B1 by (intro mult_left_mono) simp_all
    finally show ?thesis using bpos by (simp add: x pos_divide_less_eq)
  qed
  have lower: "2 powi (la - lb - 1) < x"
  proof -
    have "(2::rat) powi (la - lb - 1) * of_int b < 2 powi (la - lb - 1) * 2 powi lb"
      using B2 by (intro mult_strict_left_mono) simp_all
    also have "\<dots> = 2 powi (la - 1)" by (simp flip: power_int_add)
    also have "\<dots> \<le> of_int a" by (rule A1)
    finally show ?thesis using bpos by (simp add: x pos_less_divide_eq)
  qed
  show ?thesis
  proof (cases "2 powi (la - lb) \<le> x")
    case True
    then have "log2_floor x = la - lb" by (simp add: log2_floor_def q la_def lb_def)
    with True upper show ?thesis by simp
  next
    case False
    then have "log2_floor x = la - lb - 1" by (simp add: log2_floor_def q la_def lb_def)
    with False lower show ?thesis by simp
  qed
qed

lemma powi_less_cancel: "(2::rat) powi m < 2 powi n \<Longrightarrow> m < n"
proof (rule ccontr)
  assume lt: "(2::rat) powi m < 2 powi n" and "\<not> m < n"
  then have "n \<le> m" by simp
  then have "(2::rat) powi n \<le> 2 powi m" by (intro power_int_increasing) simp_all
  with lt show False by simp
qed

lemma log2_floor_unique:
  assumes "2 powi e \<le> x" and "x < 2 powi (e + 1)"
  shows "log2_floor x = e"
proof -
  have "(0::rat) < 2 powi e" by simp
  with assms(1) have pos: "0 < x" by linarith
  note b = log2_floor_bounds [OF pos]
  from b assms have "(2::rat) powi (log2_floor x) < 2 powi (e + 1)" by linarith
  then have 1: "log2_floor x < e + 1" by (rule powi_less_cancel)
  from b assms have "(2::rat) powi e < 2 powi (log2_floor x + 1)" by linarith
  then have 2: "e < log2_floor x + 1" by (rule powi_less_cancel)
  from 1 2 show ?thesis by simp
qed

lemma log2_floor_mono:
  assumes "0 < x" and "x \<le> y"
  shows "log2_floor x \<le> log2_floor y"
proof -
  from assms have "0 < y" by simp
  from log2_floor_bounds [OF assms(1)] log2_floor_bounds [OF this] assms(2)
  have "(2::rat) powi (log2_floor x) < 2 powi (log2_floor y + 1)" by linarith
  then have "log2_floor x < log2_floor y + 1" by (rule powi_less_cancel)
  then show ?thesis by simp
qed

lemma fl_rnd: "fl x = clip (rnd (quantum x) x)"
  by (simp add: fl_def rnd_def clip_def round_even_of_int [of 0, simplified] Let_def)

lemma rnd_mono: "x \<le> y \<Longrightarrow> rnd q x \<le> rnd q y"
  unfolding rnd_def
  by (intro mult_right_mono round_even_mono divide_right_mono iffD2 [OF of_int_le_iff]) simp_all

lemma rnd_grid: "rnd q (of_int n * 2 powi q) = of_int n * 2 powi q"
  by (simp add: rnd_def round_even_of_int)

lemma rnd_zero: "rnd q 0 = 0"
  using rnd_grid [of q 0] by simp

lemma rnd_powi:
  assumes "q \<le> e"
  shows "rnd q (2 powi e) = 2 powi e"
proof -
  have "(2::rat) powi e = 2 powi (e - q) * 2 powi q" by (simp flip: power_int_add)
  also have "(2::rat) powi (e - q) = of_int (2 ^ nat (e - q))"
    using assms by (simp add: power_int_def)
  finally have "(2::rat) powi e = of_int (2 ^ nat (e - q)) * 2 powi q" .
  then show ?thesis using rnd_grid [of q "2 ^ nat (e - q)"] by simp
qed

lemma rnd_neg: "rnd q (- x) = - rnd q x"
proof -
  have "round_even (- a) = - round_even a" for a :: rat
  proof (cases "a \<in> \<int>")
    case True
    then obtain n where "a = of_int n" by (auto elim: Ints_cases)
    then show ?thesis using round_even_of_int [of n] round_even_of_int [of "- n"] by simp
  next
    case False
    have ne: "a \<noteq> of_int \<lfloor>a\<rfloor>" using False by (metis Ints_of_int)
    then have f: "\<lfloor>- a\<rfloor> = - \<lfloor>a\<rfloor> - 1"
      by (simp add: floor_minus ceiling_altdef)
    from ne have "a - of_int \<lfloor>a\<rfloor> \<noteq> 0" by simp
    then show ?thesis
      unfolding round_even_def Let_def f by (auto simp: algebra_simps)
  qed
  then show ?thesis by (simp add: rnd_def)
qed

lemma quantum_neg: "quantum (- x) = quantum x"
  by (simp add: quantum_def)

lemma quantum_mono: "0 < x \<Longrightarrow> x \<le> y \<Longrightarrow> quantum x \<le> quantum y"
  using log2_floor_mono [of x y] by (simp add: quantum_def)

text \<open>Rounding positive numbers, each on its own grid, keeps their order.\<close>

lemma rnd_quantum_mono:
  assumes "0 < x" and "x \<le> y"
  shows "rnd (quantum x) x \<le> rnd (quantum y) y"
proof (cases "quantum x = quantum y")
  case True
  with rnd_mono [OF assms(2)] show ?thesis by simp
next
  case False
  with quantum_mono [OF assms] have lt: "quantum x < quantum y" by simp
  define ex ey where "ex = log2_floor x" and "ey = log2_floor y"
  from assms have ypos: "0 < y" by simp
  have ax: "\<bar>x\<bar> = x" and ay: "\<bar>y\<bar> = y" using assms by simp_all
  from lt have qy: "quantum y = ey - 52" and exy: "ex < ey"
    by (auto simp: quantum_def ax ay ex_def ey_def max_def split: if_splits)
  have qx: "quantum x \<le> ey" using lt qy by simp
  from log2_floor_bounds [OF assms(1)] have "x < 2 powi (ex + 1)" by (simp add: ex_def)
  also have "(2::rat) powi (ex + 1) \<le> 2 powi ey"
    using exy by (intro power_int_increasing) simp_all
  finally have xg: "x \<le> 2 powi ey" by simp
  from log2_floor_bounds [OF ypos] have gy: "2 powi ey \<le> y" by (simp add: ey_def)
  have "rnd (quantum x) x \<le> rnd (quantum x) (2 powi ey)" using xg by (rule rnd_mono)
  also have "\<dots> = 2 powi ey" using qx by (rule rnd_powi)
  also have "\<dots> = rnd (quantum y) (2 powi ey)" using qy by (simp add: rnd_powi)
  also have "\<dots> \<le> rnd (quantum y) y" using gy by (rule rnd_mono)
  finally show ?thesis .
qed

lemma rnd_nonneg: "0 \<le> x \<Longrightarrow> 0 \<le> rnd q x"
  using rnd_mono [of 0 x q] by (simp add: rnd_zero)

lemma rnd_all_mono:
  assumes "x \<le> y"
  shows "rnd (quantum x) x \<le> rnd (quantum y) y"
proof -
  consider "0 < x" | "x \<le> 0" "0 \<le> y" | "y < 0" by linarith
  then show ?thesis
  proof cases
    case 1
    then show ?thesis using assms by (rule rnd_quantum_mono)
  next
    case 2
    from 2(1) have "0 \<le> rnd (quantum x) (- x)" by (intro rnd_nonneg) simp
    then have "rnd (quantum x) x \<le> 0" by (simp add: rnd_neg)
    also have "0 \<le> rnd (quantum y) y" using 2(2) by (rule rnd_nonneg)
    finally show ?thesis .
  next
    case 3
    with assms have "0 < - y" "- y \<le> - x" by simp_all
    then have "rnd (quantum (- y)) (- y) \<le> rnd (quantum (- x)) (- x)" by (rule rnd_quantum_mono)
    then show ?thesis by (simp add: rnd_neg quantum_neg)
  qed
qed

lemma clip_mono: "a \<le> b \<Longrightarrow> fle (clip a) (clip b)"
  by (auto simp: clip_def)

lemma fl_mono: "x \<le> y \<Longrightarrow> fle (fl x) (fl y)"
  unfolding fl_rnd by (intro clip_mono rnd_all_mono)

text \<open>Numbers on a grid fine enough are not changed.\<close>

lemma fl_exact:
  assumes "\<bar>n\<bar> < 2 ^ 53" and "- 1074 \<le> e" and "\<bar>of_int n * 2 powi e\<bar> < (2::rat) ^ 1024"
  shows "fl (of_int n * 2 powi e) = Finite (of_int n * 2 powi e)"
proof (cases "n = 0")
  case True
  then show ?thesis by (simp add: fl_def)
next
  case False
  define x :: rat where "x = of_int n * 2 powi e"
  have xpos: "0 < \<bar>x\<bar>" using False by (simp add: x_def)
  have "\<bar>x\<bar> = of_int \<bar>n\<bar> * 2 powi e" by (simp add: x_def abs_mult)
  also have "\<dots> < of_int (2 ^ 53) * 2 powi e"
    using assms(1) by (intro mult_strict_right_mono iffD2 [OF of_int_less_iff]) simp_all
  also have "\<dots> = 2 powi (53 + e)" by (simp add: power_int_add)
  finally have "\<bar>x\<bar> < 2 powi (53 + e)" .
  with log2_floor_bounds [OF xpos] have "(2::rat) powi (log2_floor \<bar>x\<bar>) < 2 powi (53 + e)"
    by linarith
  then have "log2_floor \<bar>x\<bar> < 53 + e" by (rule powi_less_cancel)
  with assms(2) have q: "quantum x \<le> e" by (simp add: quantum_def)
  have "(2::rat) powi e = 2 powi (e - quantum x) * 2 powi (quantum x)"
    by (simp flip: power_int_add)
  also have "(2::rat) powi (e - quantum x) = of_int (2 ^ nat (e - quantum x))"
    using q by (simp add: power_int_def)
  finally have "x = of_int (n * 2 ^ nat (e - quantum x)) * 2 powi (quantum x)"
    by (simp add: x_def)
  then have "rnd (quantum x) x = x" using rnd_grid [of "quantum x" "n * 2 ^ nat (e - quantum x)"]
    by simp
  moreover from assms(3) have "clip x = Finite x" by (auto simp: clip_def x_def)
  ultimately show ?thesis by (simp add: fl_rnd x_def)
qed

section \<open>The duty ratio\<close>

lemma tiny_pos: "0 < tiny"
  by (simp only: tiny_def zero_less_power_int zero_less_numeral)

lemma powi_tiny:
  assumes "- 1074 \<le> q"
  shows "(2::rat) powi q = of_int (2 ^ nat (q + 1074)) * tiny"
proof -
  have "(2::rat) powi q = 2 powi ((q + 1074) + (- 1074))" by simp
  also have "\<dots> = 2 powi (q + 1074) * 2 powi (- 1074)"
    by (rule power_int_add) simp
  also have "(2::rat) powi (q + 1074) = of_int (2 ^ nat (q + 1074))"
    using assms by (simp add: power_int_def)
  finally show ?thesis by (simp only: tiny_def)
qed

lemma tiny_le_1: "tiny \<le> 1"
proof -
  have "(2::rat) powi (- 1074) \<le> 2 powi 0" by (rule power_int_increasing) simp_all
  then show ?thesis by (simp only: tiny_def power_int_0_right)
qed

lemma fl_0: "fl 0 = Finite 0"
  by (simp add: fl_def)

lemma fl_of_int:
  assumes "\<bar>n\<bar> < 2 ^ 53"
  shows "fl (of_int n) = Finite (of_int n)"
proof -
  have "\<bar>rat_of_int n\<bar> < of_int (2 ^ 53)" using assms by (simp only: of_int_abs [symmetric] of_int_less_iff)
  also have "rat_of_int (2 ^ 53) < 2 ^ 1024" by simp
  finally have "\<bar>rat_of_int n * 2 powi 0\<bar> < 2 ^ 1024" by simp
  with fl_exact [OF assms, of 0] show ?thesis by simp
qed

lemma fl_100: "fl 100 = Finite 100"
  using fl_of_int [of 100] by simp

lemma fl_1: "fl 1 = Finite 1"
  using fl_of_int [of 1] by simp

lemma fl_min: "fl tiny = Finite tiny"
proof -
  have "\<bar>tiny\<bar> < 2 ^ 1024" using tiny_pos tiny_le_1 by simp
  then have "\<bar>rat_of_int 1 * 2 powi (- 1074)\<bar> < 2 ^ 1024"
    by (simp only: tiny_def of_int_1 mult_1)
  with fl_exact [of 1 "- 1074"] have "fl (rat_of_int 1 * 2 powi (- 1074)) =
      Finite (rat_of_int 1 * 2 powi (- 1074))" by simp
  then show ?thesis by (simp only: tiny_def of_int_1 mult_1)
qed

lemma is_double_grid:
  assumes "is_double x"
  shows "\<exists>k. x = of_int k * tiny"
proof -
  from assms have "clip (rnd (quantum x) x) = Finite x" by (simp add: is_double_def fl_rnd)
  then have "rnd (quantum x) x = x" by (auto simp: clip_def split: if_splits)
  then have x: "x = of_int (round_even (x / 2 powi quantum x)) * 2 powi quantum x"
    by (simp add: rnd_def)
  have q: "- 1074 \<le> quantum x" by (simp add: quantum_def)
  have "x = of_int (round_even (x / 2 powi quantum x)) * (of_int (2 ^ nat (quantum x + 1074)) * tiny)"
    using x by (simp only: powi_tiny [OF q])
  then have "x = of_int (round_even (x / 2 powi quantum x) * 2 ^ nat (quantum x + 1074)) * tiny"
    by (simp only: of_int_mult mult.assoc)
  then show ?thesis ..
qed

lemma double_gap:
  assumes "is_double l" and "is_double h" and "l < h"
  shows "tiny \<le> h - l"
proof -
  from is_double_grid [OF assms(1)] obtain kl where l: "l = of_int kl * tiny" ..
  from is_double_grid [OF assms(2)] obtain kh where h: "h = of_int kh * tiny" ..
  note u = tiny_pos
  from assms(3) have "rat_of_int kl < of_int kh"
    unfolding l h using u by (simp only: mult_less_cancel_right_pos)
  then have "1 \<le> kh - kl" by simp
  then have "rat_of_int 1 \<le> of_int (kh - kl)" by (simp only: of_int_le_iff)
  then have "1 * tiny \<le> (of_int kh - rat_of_int kl) * tiny"
    using u by (intro mult_right_mono) simp_all
  then show ?thesis by (simp add: l h algebra_simps)
qed

lemma fle_ule: "fle (Finite 0) u \<Longrightarrow> fle u v \<Longrightarrow> ule u v"
  by (cases u; cases v) auto

lemma fl_ule: "0 \<le> x \<Longrightarrow> x \<le> y \<Longrightarrow> ule (fl x) (fl y)"
  using fl_mono [of 0 x] fl_mono [of x y] by (auto simp: fl_0 intro: fle_ule)

lemma fl_ule_top:
  assumes "0 \<le> x"
  shows "ule (fl x) PosInf" and "ule (fl x) NaN"
  using fl_mono [OF assms] by (cases "fl x"; simp add: fl_0)+

lemma ule_refl_fl: "0 \<le> x \<Longrightarrow> ule (fl x) (fl x)"
  by (rule fl_ule) simp_all

text \<open>A positive divisor, as the difference of two distinct doubles is.\<close>

lemma fl_pos:
  assumes "tiny \<le> x"
  shows "pos_float (fl x)"
proof -
  from fl_mono [OF assms] tiny_pos show ?thesis
    by (cases "fl x") (simp_all add: fl_min pos_float_def)
qed

lemma div_ule:
  assumes "ule u v" and "pos_float b"
  shows "ule (fdiv u b) (fdiv v b)"
proof (cases b)
  case (Finite y)
  with assms(2) have y: "0 < y" by (simp add: pos_float_def)
  show ?thesis
  proof (cases u)
    case u: (Finite a)
    with assms(1) have a: "0 \<le> a" by (cases v) simp_all
    then have d: "0 \<le> a / y" using y by simp
    show ?thesis
    proof (cases v)
      case (Finite a2)
      with assms(1) u have "a \<le> a2" by simp
      then have "a / y \<le> a2 / y" using y by (simp add: divide_right_mono)
      with d show ?thesis using \<open>b = Finite y\<close> u Finite by (simp add: fl_ule)
    qed (use assms(1) \<open>b = Finite y\<close> u y d in \<open>simp_all add: fl_ule_top\<close>)
  qed (use assms(1) \<open>b = Finite y\<close> y in \<open>cases v; simp\<close>)+
qed (use assms in \<open>cases u; cases v; simp add: pos_float_def\<close>)+

lemma mul_ule:
  assumes "ule u v" and "0 \<le> c"
  shows "ule (fmul u (Finite c)) (fmul v (Finite c))"
proof (cases u)
  case u: (Finite a)
  with assms(1) have a: "0 \<le> a" by (cases v) simp_all
  then have d: "0 \<le> a * c" using assms(2) by simp
  show ?thesis
  proof (cases v)
    case (Finite a2)
    with assms(1) u have "a \<le> a2" by simp
    then have "a * c \<le> a2 * c" using assms(2) by (simp add: mult_right_mono)
    with d show ?thesis using u Finite by (simp add: fl_ule)
  qed (use assms(1) u assms(2) d in \<open>simp_all add: fl_ule_top\<close>)
qed (use assms in \<open>cases v; simp\<close>)+

lemma add_ule:
  assumes "ule u v" and "0 \<le> m"
  shows "ule (fadd u (Finite m)) (fadd v (Finite m))"
proof (cases u)
  case u: (Finite a)
  with assms(1) have a: "0 \<le> a" by (cases v) simp_all
  then have d: "0 \<le> a + m" using assms(2) by simp
  show ?thesis
  proof (cases v)
    case (Finite a2)
    with assms(1) u have "a + m \<le> a2 + m" by simp
    with d show ?thesis using u Finite by (simp add: fl_ule)
  qed (use assms(1) u d in \<open>simp_all add: fl_ule_top\<close>)
qed (use assms in \<open>cases v; simp\<close>)+

lemma py_trunc_mono: "x \<le> y \<Longrightarrow> py_trunc x \<le> py_trunc y"
proof -
  assume xy: "x \<le> y"
  show ?thesis
  proof (cases "0 \<le> x")
    case True
    with xy show ?thesis by (simp add: py_trunc_def floor_mono)
  next
    case False
    show ?thesis
    proof (cases "0 \<le> y")
      case True
      from False have "\<lceil>x\<rceil> \<le> 0" by (simp add: ceiling_le_zero)
      moreover from True have "0 \<le> \<lfloor>y\<rfloor>" by simp
      ultimately have "\<lceil>x\<rceil> \<le> \<lfloor>y\<rfloor>" by linarith
      then show ?thesis using False True by (simp add: py_trunc_def)
    next
      case y: False
      with False xy show ?thesis by (simp add: py_trunc_def ceiling_mono)
    qed
  qed
qed

lemma clamp_ule:
  assumes "ule u v"
  shows "\<exists>d1 d2. clamp u = Inr d1 \<and> clamp v = Inr d2 \<and> 0 \<le> d1 \<and> d1 \<le> d2 \<and> d2 \<le> 100"
proof -
  have fin: "\<exists>d. clamp (Finite a) = Inr d \<and> 0 \<le> d \<and> d \<le> 100 \<and>
               d = (if a < 100 then py_trunc a else 100)" if "0 \<le> a" for a
  proof (cases "a < 100")
    case True
    then have "py_trunc a \<le> py_trunc 100" by (intro py_trunc_mono) simp
    moreover have "py_trunc 100 = 100" by (simp add: py_trunc_def)
    moreover have "0 \<le> py_trunc a" using that by (simp add: py_trunc_def)
    ultimately show ?thesis using True by (simp add: clamp_def)
  next
    case False
    then show ?thesis by (simp add: clamp_def)
  qed
  have top: "clamp PosInf = Inr 100" "clamp NaN = Inr 100" by (simp_all add: clamp_def)
  show ?thesis
  proof (cases u)
    case u: (Finite a)
    with assms have a: "0 \<le> a" by (cases v) simp_all
    from fin [OF a] obtain d1 where d1: "clamp (Finite a) = Inr d1" "0 \<le> d1" "d1 \<le> 100"
      "d1 = (if a < 100 then py_trunc a else 100)" by blast
    show ?thesis
    proof (cases v)
      case (Finite a2)
      with assms u a have le: "a \<le> a2" and a2: "0 \<le> a2" by simp_all
      from fin [OF a2] obtain d2 where d2: "clamp (Finite a2) = Inr d2" "0 \<le> d2" "d2 \<le> 100"
        "d2 = (if a2 < 100 then py_trunc a2 else 100)" by blast
      have "d1 \<le> d2"
      proof (cases "a2 < 100")
        case True
        with le have "a < 100" by simp
        with True d1(4) d2(4) py_trunc_mono [OF le] show ?thesis by simp
      next
        case False
        with d2(4) d1(3) show ?thesis by simp
      qed
      with d1 d2 u Finite show ?thesis by simp
    qed (use assms u d1 top in simp_all)
  qed (use assms top in \<open>cases v; simp\<close>)+
qed

lemma fl_numeral: "numeral k < (2::int) ^ 53 \<Longrightarrow> fl (numeral k) = Finite (numeral k)"
  using fl_of_int [of "numeral k"] by simp

lemma fl_dyadic:
  assumes "\<bar>n\<bar> < 2 ^ 53" and "k \<le> 1074"
  shows "fl (of_int n / 2 ^ k) = Finite (of_int n / 2 ^ k)"
proof -
  have eq: "rat_of_int n * 2 powi (- int k) = of_int n / 2 ^ k"
    by (simp add: power_int_minus_divide)
  have "\<bar>rat_of_int n\<bar> < of_int (2 ^ 53)"
    using assms(1) by (simp only: of_int_abs [symmetric] of_int_less_iff)
  moreover have "\<bar>rat_of_int n / 2 ^ k\<bar> \<le> \<bar>of_int n\<bar>"
    by (simp add: abs_divide divide_le_eq_1 mult_le_cancel_left1 pos_divide_le_eq)
  ultimately have "\<bar>rat_of_int n / 2 ^ k\<bar> < 2 ^ 1024" by simp
  with fl_exact [OF assms(1), of "- int k"] assms(2) show ?thesis by (simp add: eq)
qed

text \<open>The four arguments floats: the computation is one expression of float operations.\<close>

lemma duty_floats:
  assumes "fl (h - l) \<noteq> Finite 0" and "fl (100 - m) = Finite c"
  shows "getDutyRatio (PyFloat (Finite t)) (PyFloat (Finite h)) (PyFloat (Finite l))
           (PyFloat (Finite m)) =
         (if h < t then Inr 100 else if t < l then Inr 0 else clamp (raw_duty t h l c m))"
  using assms
  by (simp add: getDutyRatio_def float_op_def float_div_def to_float_def bind_exn_def fsub_def
      fl_100 clamp_def raw_duty_def)

lemma fl_between:
  assumes "0 \<le> x" and "x \<le> of_int n" and "\<bar>n\<bar> < 2 ^ 53"
  shows "\<exists>y. fl x = Finite y \<and> 0 \<le> y \<and> y \<le> of_int n"
  using fl_mono [OF assms(1)] fl_mono [OF assms(2)] fl_of_int [OF assms(3)]
  by (cases "fl x") (simp_all add: fl_0)

lemma complement_exists:
  assumes "0 \<le> m" and "m \<le> 100"
  shows "\<exists>c. fl (100 - m) = Finite c \<and> 0 \<le> c \<and> c \<le> 100"
  using fl_between [of "100 - m" 100] assms by simp

lemma raw_duty_ule:
  assumes "is_double l" and "is_double h" and "l < h" and "0 \<le> c" and "0 \<le> m"
    and "l \<le> t1" and "t1 \<le> t2"
  shows "ule (raw_duty t1 h l c m) (raw_duty t2 h l c m)"
proof -
  have "pos_float (fl (h - l))" using assms(1-3) by (intro fl_pos double_gap)
  moreover have "ule (fl (t1 - l)) (fl (t2 - l))" using assms(6,7) by (intro fl_ule) simp_all
  ultimately show ?thesis
    unfolding raw_duty_def using assms(4,5) by (intro add_ule mul_ule div_ule)
qed

lemma divisor_nonzero:
  assumes "is_double l" and "is_double h" and "l < h"
  shows "fl (h - l) \<noteq> Finite 0"
proof -
  have "pos_float (fl (h - l))" using assms by (intro fl_pos double_gap)
  then show ?thesis by (auto simp: pos_float_def)
qed

lemma duty_range:
  assumes "is_double l" and "is_double h" and "l < h" and "0 \<le> m" and "m \<le> 100"
  shows "\<exists>d. getDutyRatio (PyFloat (Finite t)) (PyFloat (Finite h)) (PyFloat (Finite l))
               (PyFloat (Finite m)) = Inr d \<and> 0 \<le> d \<and> d \<le> 100"
proof -
  from complement_exists [OF assms(4,5)] obtain c where c: "fl (100 - m) = Finite c" "0 \<le> c"
    by blast
  note u = duty_floats [OF divisor_nonzero [OF assms(1-3)] c(1)]
  show ?thesis
  proof (cases "h < t \<or> t < l")
    case True
    then show ?thesis by (auto simp: u)
  next
    case False
    then have "l \<le> t" by simp
    from raw_duty_ule [OF assms(1-3) c(2) assms(4) this, of t]
    have "ule (raw_duty t h l c m) (raw_duty t h l c m)" by simp
    from clamp_ule [OF this] False show ?thesis by (auto simp: u)
  qed
qed

lemma duty_mono_floats:
  assumes "is_double l" and "is_double h" and "l < h" and "0 \<le> m" and "m \<le> 100"
    and "t1 \<le> t2"
  shows "\<exists>d1 d2. getDutyRatio (PyFloat (Finite t1)) (PyFloat (Finite h)) (PyFloat (Finite l))
                   (PyFloat (Finite m)) = Inr d1
               \<and> getDutyRatio (PyFloat (Finite t2)) (PyFloat (Finite h)) (PyFloat (Finite l))
                   (PyFloat (Finite m)) = Inr d2
               \<and> d1 \<le> d2"
proof -
  from complement_exists [OF assms(4,5)] obtain c where c: "fl (100 - m) = Finite c" "0 \<le> c"
    by blast
  note u = duty_floats [OF divisor_nonzero [OF assms(1-3)] c(1)]
  from duty_range [OF assms(1-5), of t1] obtain d1 where
    d1: "getDutyRatio (PyFloat (Finite t1)) (PyFloat (Finite h)) (PyFloat (Finite l))
           (PyFloat (Finite m)) = Inr d1" "0 \<le> d1" "d1 \<le> 100" by blast
  from duty_range [OF assms(1-5), of t2] obtain d2 where
    d2: "getDutyRatio (PyFloat (Finite t2)) (PyFloat (Finite h)) (PyFloat (Finite l))
           (PyFloat (Finite m)) = Inr d2" "0 \<le> d2" "d2 \<le> 100" by blast
  have "d1 \<le> d2"
  proof (cases "h < t2 \<or> t1 < l")
    case True
    then show ?thesis
    proof
      assume "h < t2"
      with d2(1) have "d2 = 100" by (simp add: u)
      with d1 show ?thesis by simp
    next
      assume "t1 < l"
      moreover from this assms(3) have "\<not> h < t1" by simp
      ultimately have "d1 = 0" using d1(1) by (simp add: u)
      with d2 show ?thesis by simp
    qed
  next
    case False
    with assms(6) have r: "\<not> h < t1" "\<not> t1 < l" "\<not> h < t2" "\<not> t2 < l" by simp_all
    then have "l \<le> t1" by simp
    from clamp_ule [OF raw_duty_ule [OF assms(1-3) c(2) assms(4) this assms(6)]]
    show ?thesis using d1(1) d2(1) r by (auto simp: u)
  qed
  with d1(1) d2(1) show ?thesis by blast
qed




lemma is_double_numeral: "numeral k < (2::int) ^ 53 \<Longrightarrow> is_double (numeral k)"
  by (simp add: is_double_def fl_numeral)




text \<open>Runs on concrete arguments.\<close>

lemma run_75: "getDutyRatio (PyFloat (Finite 75)) (PyFloat (Finite 85)) (PyFloat (Finite 65))
    (PyFloat (Finite 70)) = Inr 85"
proof -
  have h: "fl (1 / 2) = Finite (1 / 2)" using fl_dyadic [of 1 1] by simp
  have "fl (85 - 65) \<noteq> Finite 0" "fl (100 - 70) = Finite 30" by (simp_all add: fl_numeral)
  from duty_floats [OF this] show ?thesis
    by (simp add: raw_duty_def fl_numeral h clamp_def py_trunc_def)
qed

lemma run_80: "getDutyRatio (PyFloat (Finite 80)) (PyFloat (Finite 85)) (PyFloat (Finite 65))
    (PyFloat (Finite 70)) = Inr 92"
proof -
  have a: "fl (3 / 4) = Finite (3 / 4)" using fl_dyadic [of 3 2] by simp
  have b: "fl (45 / 2) = Finite (45 / 2)" using fl_dyadic [of 45 1] by simp
  have c: "fl (185 / 2) = Finite (185 / 2)" using fl_dyadic [of 185 1] by simp
  have f: "\<lfloor>185 / 2 :: rat\<rfloor> = 92" by (simp add: floor_eq_iff)
  have "fl (85 - 65) \<noteq> Finite 0" "fl (100 - 70) = Finite 30" by (simp_all add: fl_numeral)
  from duty_floats [OF this] show ?thesis
    by (simp add: raw_duty_def fl_numeral a b c f clamp_def py_trunc_def)
qed

lemma run_ints: "getDutyRatio (PyInt 75) (PyInt 85) (PyInt 65) (PyInt 70) = Inr 70"
  by (simp add: getDutyRatio_def bind_exn_def)

lemma run_mixed: "getDutyRatio (PyFloat (Finite 70)) (PyInt 85) (PyInt 65) (PyInt 70) = Inr 77"
proof -
  have a: "fl (1 / 4) = Finite (1 / 4)" using fl_dyadic [of 1 2] by simp
  have b: "fl (15 / 2) = Finite (15 / 2)" using fl_dyadic [of 15 1] by simp
  have c: "fl (155 / 2) = Finite (155 / 2)" using fl_dyadic [of 155 1] by simp
  have f: "\<lfloor>155 / 2 :: rat\<rfloor> = 77" by (simp add: floor_eq_iff)
  show ?thesis
    by (simp add: getDutyRatio_def float_op_def float_div_def to_float_def bind_exn_def fsub_def
        fl_numeral a b c f py_trunc_def)
qed

lemma run_negative_floor:
  "getDutyRatio (PyFloat (Finite 64)) (PyFloat (Finite 85)) (PyFloat (Finite 65))
     (PyFloat (Finite (- 50))) = Inr 0 \<and>
   getDutyRatio (PyFloat (Finite 65)) (PyFloat (Finite 85)) (PyFloat (Finite 65))
     (PyFloat (Finite (- 50))) = Inr (- 50)"
proof -
  have n: "fl (- 50) = Finite (- 50)" using fl_of_int [of "- 50"] by simp
  have "fl (85 - 65) \<noteq> Finite 0" "fl (100 - (- 50)) = Finite 150" by (simp_all add: fl_numeral)
  note u = duty_floats [OF this]
  show ?thesis
    by (simp add: u raw_duty_def fl_numeral fl_0 n clamp_def py_trunc_def)
qed

lemma fl_eval:
  assumes "2 powi e \<le> \<bar>x\<bar>" and "\<bar>x\<bar> < 2 powi (e + 1)"
  shows "fl x = clip (rnd (max (e - 52) (- 1074)) x)"
  using log2_floor_unique [OF assms] by (simp add: fl_rnd quantum_def)



lemma run_large_floor:
  "getDutyRatio (PyFloat (Finite 65)) (PyFloat (Finite 85)) (PyFloat (Finite 65))
     (PyFloat (Finite (2 ^ 57))) = Inr 100 \<and>
   getDutyRatio (PyFloat (Finite 85)) (PyFloat (Finite 85)) (PyFloat (Finite 65))
     (PyFloat (Finite (2 ^ 57))) = Inr 96"
proof -
  have "fl (100 - 2 ^ 57) = clip (rnd (max (56 - 52) (- 1074)) (100 - 2 ^ 57))"
    by (rule fl_eval) simp_all
  moreover have "\<lfloor>(100 - 2 ^ 57) / 2 powi 4 :: rat\<rfloor> = - 9007199254740986"
    by (simp add: floor_eq_iff)
  then have "round_even ((100 - 2 ^ 57) / 2 powi 4) = - 9007199254740986"
    by (simp add: round_even_def)
  ultimately have "fl (100 - 2 ^ 57) = Finite (- 144115188075855776)"
    by (simp add: clip_def rnd_def)
  then have c: "fl (100 - 144115188075855872) = Finite (- 144115188075855776)" by simp
  have "fl (rat_of_int (- 9007199254740986) * 2 powi 4) =
        Finite (rat_of_int (- 9007199254740986) * 2 powi 4)"
    by (rule fl_exact) simp_all
  then have c': "fl (- 144115188075855776) = Finite (- 144115188075855776)" by simp
  have "fl (rat_of_int 1 * 2 powi 57) = Finite (rat_of_int 1 * 2 powi 57)"
    by (rule fl_exact) simp_all
  then have m: "fl 144115188075855872 = Finite 144115188075855872" by simp
  have "fl (85 - 65) \<noteq> Finite 0" by (simp add: fl_numeral)
  note u = duty_floats [OF this c]
  show ?thesis
    by (simp add: u raw_duty_def fl_numeral fl_0 fl_1 c' m clamp_def py_trunc_def)
qed





text \<open>
  Claim C6, as stated, fails. With the negative \<open>dutyMin = - 50\<close> the result drops from 0
  just below \<open>low\<close> to \<open>- 50\<close> at \<open>low\<close>. With the large \<open>dutyMin = 2 ^ 57\<close> it drops from 100
  at \<open>low\<close> to 96 at \<open>high\<close>, as \<open>100 - dutyMin\<close> is rounded. And between a float and an
  integer temperature it drops from 77 at 70.0 to 70 at the integer 75, whose quotient
  Python 2 floor-divides.
\<close>

theorem getDutyRatio_mono_counterexample:
  "(65::rat) < 85 \<and> (64::rat) \<le> 65 \<and>
   getDutyRatio (PyFloat (Finite 64)) (PyFloat (Finite 85)) (PyFloat (Finite 65))
     (PyFloat (Finite (- 50))) = Inr 0 \<and>
   getDutyRatio (PyFloat (Finite 65)) (PyFloat (Finite 85)) (PyFloat (Finite 65))
     (PyFloat (Finite (- 50))) = Inr (- 50) \<and>
   \<not> ((0::int) \<le> - 50) \<and>
   getDutyRatio (PyFloat (Finite 65)) (PyFloat (Finite 85)) (PyFloat (Finite 65))
     (PyFloat (Finite (2 ^ 57))) = Inr 100 \<and>
   getDutyRatio (PyFloat (Finite 85)) (PyFloat (Finite 85)) (PyFloat (Finite 65))
     (PyFloat (Finite (2 ^ 57))) = Inr 96 \<and>
   \<not> ((100::int) \<le> 96) \<and>
   getDutyRatio (PyFloat (Finite 70)) (PyInt 85) (PyInt 65) (PyInt 70) = Inr 77 \<and>
   getDutyRatio (PyInt 75) (PyInt 85) (PyInt 65) (PyInt 70) = Inr 70 \<and>
   \<not> ((77::int) \<le> 70)"
proof -
  have "(65::rat) < 85" "(64::rat) \<le> 65" "\<not> ((0::int) \<le> - 50)" "\<not> ((100::int) \<le> 96)"
    "\<not> ((77::int) \<le> 70)" by simp_all
  with run_negative_floor run_large_floor run_mixed run_ints show ?thesis by blast
qed

text \<open>
  Claim C6, amended. For float arguments, as the controller passes them, with
  \<open>low < high\<close> and \<open>dutyMin\<close> in the range 0 to 100 of the configuration, \<^verbatim>\<open>getDutyRatio\<close>
  returns a value for every temperature and is monotonic non-decreasing in the
  temperature, in double precision arithmetic, overflow included.
\<close>

theorem getDutyRatio_mono:
  assumes "is_double low" and "is_double high" and "low < high"
    and "0 \<le> dutyMin" and "dutyMin \<le> 100" and "temp1 \<le> temp2"
  shows "\<exists>d1 d2. getDutyRatio (PyFloat (Finite temp1)) (PyFloat (Finite high))
                   (PyFloat (Finite low)) (PyFloat (Finite dutyMin)) = Inr d1
               \<and> getDutyRatio (PyFloat (Finite temp2)) (PyFloat (Finite high))
                   (PyFloat (Finite low)) (PyFloat (Finite dutyMin)) = Inr d2
               \<and> d1 \<le> d2"
  using assms by (rule duty_mono_floats)

theorem getDutyRatio_mono_witness:
  "is_double 65 \<and> is_double 85 \<and> (65::rat) < 85 \<and> (0::rat) \<le> 70 \<and> (70::rat) \<le> 100 \<and>
   (75::rat) \<le> 80 \<and>
   getDutyRatio (PyFloat (Finite 75)) (PyFloat (Finite 85)) (PyFloat (Finite 65))
     (PyFloat (Finite 70)) = Inr 85 \<and>
   getDutyRatio (PyFloat (Finite 80)) (PyFloat (Finite 85)) (PyFloat (Finite 65))
     (PyFloat (Finite 70)) = Inr 92 \<and> (85::int) \<le> 92"
proof -
  have d: "is_double 65" "is_double 85" by (simp_all add: is_double_numeral)
  have h: "(65::rat) < 85" "(0::rat) \<le> 70" "(70::rat) \<le> 100" "(75::rat) \<le> 80" by simp_all
  from getDutyRatio_mono [OF d h] run_75 run_80 d h show ?thesis by auto
qed

section \<open>The fan controller\<close>

lemmas io_defs = return_io_def raise_def bind_io_def then_io_def lift_def lookup_def attribute_def logged_def

lemmas gpio_defs = GPIO_setmode_def GPIO_setup_def GPIO_output_def GPIO_PWM_def PWM_start_m_def
  PWM_ChangeDutyCycle_m_def PWM_stop_m_def GPIO_cleanup_def time_sleep_def

lemma line_75123: "reconstruct ''75123\<newline>'' = Inr (751 / 10)"
proof -
  have "py_int ''75123\<newline>'' = Inr 75123" by (simp add: py_int_eval)
  from reconstruct_value [OF this] show ?thesis by simp
qed

lemma sample_75123: "getTemperature (Some [''75123\<newline>'']) = Inr (751 / 10)"
  by (simp only: getTemperature_single line_75123)

lemma sample_unreadable: "getTemperature None = Inl IOError"
  by (simp add: getTemperature_def)

text \<open>The constructor on the library's initial state, in on/off mode.\<close>

lemma Fan_init_on_off:
  assumes "GPIO_FAN cfg = Some ch" and "MODE cfg = None \<or> PWM cfg = None"
  shows "Fan_init cfg gpio_initial =
           (Inr \<lparr>config = cfg, pwm = None, control = OnOffControl, config_pwm = None\<rparr>,
            \<lparr>mode_set = True, configured_out = {ch}, driven_high = {}, pwm_exists = {},
             pwm_duty = Map.empty, trace = [Setmode, Setup ch]\<rparr>)"
  using assms by (auto simp: Fan_init_def gpio_initial_def io_defs gpio_defs)

text \<open>The constructor on the library's initial state, in PWM mode.\<close>

lemma Fan_init_pwm:
  assumes "GPIO_FAN cfg = Some ch" and "MODE cfg = Some m" and "PWM cfg = Some cp"
    and "FREQ cp = Some f" and "0 < f"
  shows "Fan_init cfg gpio_initial =
           (Inr \<lparr>config = cfg, pwm = Some ch, control = PwmControl, config_pwm = Some cp\<rparr>,
            \<lparr>mode_set = True, configured_out = {ch}, driven_high = {}, pwm_exists = {ch},
             pwm_duty = [ch \<mapsto> 0], trace = [Setmode, Setup ch, PWM_new ch f, PWM_start ch 0]\<rparr>)"
  using assms by (simp add: Fan_init_def gpio_initial_def io_defs gpio_defs)

lemma Fan_init_control:
  "Fan_init cfg hw = (Inr self, hw') \<Longrightarrow>
   control self = (if MODE cfg \<noteq> None \<and> PWM cfg \<noteq> None then PwmControl else OnOffControl)"
  by (auto simp: Fan_init_def io_defs gpio_defs Let_def split: if_splits option.splits sum.splits prod.splits)

text \<open>
  Claim C10. In on/off mode the control step is \<^verbatim>\<open>on_off_control\<close>; on a pin that is
  set up it raises nothing and writes logical-on exactly when the temperature is above
  the threshold, logical-off otherwise, so also at the threshold itself.
\<close>

theorem on_off_control_threshold:
  assumes "control self = OnOffControl"
    and "GPIO_FAN (config self) = Some ch" and "TEMP_THRESHOLD (config self) = Some thr"
    and "mode_set hw" and "ch \<in> configured_out hw"
  shows "apply_control self cpu_temp hw = on_off_control self cpu_temp hw
       \<and> fst (on_off_control self cpu_temp hw) = Inr ()
       \<and> trace (snd (on_off_control self cpu_temp hw)) = trace hw @ [Output ch (thr < cpu_temp)]
       \<and> (ch \<in> driven_high (snd (on_off_control self cpu_temp hw)) \<longleftrightarrow> thr < cpu_temp)
       \<and> (cpu_temp = thr \<longrightarrow> ch \<notin> driven_high (snd (on_off_control self cpu_temp hw)))"
  using assms
  by (simp add: apply_control_def on_off_control_def on_def off_def io_defs GPIO_output_def)

theorem on_off_control_threshold_witness:
  "fst (Fan_init CONFIG gpio_initial) =
     Inr \<lparr>config = CONFIG, pwm = None, control = OnOffControl, config_pwm = None\<rparr> \<and>
   12 \<in> driven_high (snd (on_off_control
     \<lparr>config = CONFIG, pwm = None, control = OnOffControl, config_pwm = None\<rparr> 71
     (snd (Fan_init CONFIG gpio_initial)))) \<and>
   12 \<notin> driven_high (snd (on_off_control
     \<lparr>config = CONFIG, pwm = None, control = OnOffControl, config_pwm = None\<rparr> 70
     (snd (Fan_init CONFIG gpio_initial))))"
proof -
  let ?self = "\<lparr>config = CONFIG, pwm = None, control = OnOffControl, config_pwm = None\<rparr>"
  have i: "Fan_init CONFIG gpio_initial =
      (Inr ?self, \<lparr>mode_set = True, configured_out = {12}, driven_high = {}, pwm_exists = {},
                   pwm_duty = Map.empty, trace = [Setmode, Setup 12]\<rparr>)"
    by (rule Fan_init_on_off) (simp_all add: CONFIG_def)
  have a: "control ?self = OnOffControl" "GPIO_FAN (config ?self) = Some 12"
    "TEMP_THRESHOLD (config ?self) = Some 70"
    "mode_set (snd (Fan_init CONFIG gpio_initial))"
    "12 \<in> configured_out (snd (Fan_init CONFIG gpio_initial))"
    by (simp_all add: i) (simp_all add: CONFIG_def)
  from on_off_control_threshold [OF a, of 71] on_off_control_threshold [OF a, of 70] i
  show ?thesis by simp
qed

text \<open>
  Claim C4, as stated, fails: without a configuration file the resolved configuration is
  \<^verbatim>\<open>CONFIG\<close>, which contains a \<^verbatim>\<open>pwm\<close> block, and the controller is in on/off mode.
\<close>

theorem default_config_counterexample:
  "PWM (loadConfig None) \<noteq> None \<and>
   fst (Fan_init (loadConfig None) gpio_initial) =
     Inr \<lparr>config = CONFIG, pwm = None, control = OnOffControl, config_pwm = None\<rparr>"
proof -
  have "Fan_init CONFIG gpio_initial =
      (Inr \<lparr>config = CONFIG, pwm = None, control = OnOffControl, config_pwm = None\<rparr>,
       \<lparr>mode_set = True, configured_out = {12}, driven_high = {}, pwm_exists = {},
        pwm_duty = Map.empty, trace = [Setmode, Setup 12]\<rparr>)"
    by (rule Fan_init_on_off) (simp_all add: CONFIG_def)
  then show ?thesis by (simp add: loadConfig_def) (simp add: CONFIG_def)
qed

text \<open>
  Claim C4, amended. The constructor selects PWM control exactly when the configuration
  it is given contains both a \<^verbatim>\<open>mode\<close> key and a \<^verbatim>\<open>pwm\<close> block, and on/off control
  otherwise. \<^verbatim>\<open>loadConfig\<close> always resolves to a configuration with a \<^verbatim>\<open>pwm\<close> block (the
  default one if the file has none) and adds the \<^verbatim>\<open>mode\<close> key exactly when the file has a
  \<^verbatim>\<open>pwm\<close> block or a \<^verbatim>\<open>mode\<close> key of its own; without a file there is no \<^verbatim>\<open>mode\<close> key.
  The selection is stored in the controller: the control step dispatches on the stored
  strategy, whatever the configuration holds by then.
\<close>

theorem strategy_selection:
  "(Fan_init cfg hw = (Inr self, hw') \<longrightarrow>
      control self = (if MODE cfg \<noteq> None \<and> PWM cfg \<noteq> None then PwmControl else OnOffControl))
   \<and> PWM (loadConfig config_file) \<noteq> None
   \<and> MODE (loadConfig None) = None
   \<and> (MODE (loadConfig (Some user_conf)) \<noteq> None \<longleftrightarrow> PWM user_conf \<noteq> None \<or> MODE user_conf \<noteq> None)
   \<and> apply_control (obj\<lparr>config := c\<rparr>) =
       (case control obj of OnOffControl \<Rightarrow> on_off_control (obj\<lparr>config := c\<rparr>)
                          | PwmControl \<Rightarrow> pwm_control (obj\<lparr>config := c\<rparr>))"
proof -
  have 1: "Fan_init cfg hw = (Inr self, hw') \<longrightarrow>
      control self = (if MODE cfg \<noteq> None \<and> PWM cfg \<noteq> None then PwmControl else OnOffControl)"
    using Fan_init_control by blast
  have 2: "PWM (loadConfig config_file) \<noteq> None"
    by (cases config_file)
       (auto simp: loadConfig_def CONFIG_def update_conf_def override_def Let_def
             split: option.splits)
  have 3: "MODE (loadConfig None) = None"
    by (simp add: loadConfig_def CONFIG_def)
  have 4: "MODE (loadConfig (Some user_conf)) \<noteq> None \<longleftrightarrow> PWM user_conf \<noteq> None \<or> MODE user_conf \<noteq> None"
    by (auto simp: loadConfig_def CONFIG_def update_conf_def override_def Let_def
             split: option.splits)
  have 5: "apply_control (obj\<lparr>config := c\<rparr>) =
       (case control obj of OnOffControl \<Rightarrow> on_off_control (obj\<lparr>config := c\<rparr>)
                          | PwmControl \<Rightarrow> pwm_control (obj\<lparr>config := c\<rparr>))"
    by (auto simp: apply_control_def fun_eq_iff split: strategy.splits)
  from 1 2 3 4 5 show ?thesis by blast
qed

theorem strategy_selection_witness:
  "fst (Fan_init (CONFIG\<lparr>MODE := Some ''pwm''\<rparr>) gpio_initial) =
     Inr \<lparr>config = CONFIG\<lparr>MODE := Some ''pwm''\<rparr>, pwm = Some 12, control = PwmControl,
          config_pwm = PWM CONFIG\<rparr> \<and>
   control \<lparr>config = CONFIG\<lparr>MODE := Some ''pwm''\<rparr>, pwm = Some 12, control = PwmControl,
            config_pwm = PWM CONFIG\<rparr> = PwmControl"
proof -
  let ?cfg = "CONFIG\<lparr>MODE := Some ''pwm''\<rparr>"
  let ?self = "\<lparr>config = ?cfg, pwm = Some 12, control = PwmControl, config_pwm = PWM CONFIG\<rparr>"
  let ?hw = "\<lparr>mode_set = True, configured_out = {12}, driven_high = {}, pwm_exists = {12},
             pwm_duty = [12 \<mapsto> 0], trace = [Setmode, Setup 12, PWM_new 12 50, PWM_start 12 0]\<rparr>"
  have i: "Fan_init ?cfg gpio_initial = (Inr ?self, ?hw)"
    by (simp add: CONFIG_def Fan_init_pwm [where ch = 12 and f = 50 and m = "''pwm''"])
  from strategy_selection [of ?cfg gpio_initial ?self ?hw] i
  have "control ?self = (if MODE ?cfg \<noteq> None \<and> PWM ?cfg \<noteq> None then PwmControl else OnOffControl)"
    by blast
  with i show ?thesis by simp
qed

lemma loadConfig_inverted:
  "loadConfig (Some user_conf_inverted) =
     \<lparr>GPIO_FAN = Some 12, TEMP_THRESHOLD = Some 70, MODE = Some ''pwm'',
      PWM = PWM user_conf_inverted, SLEEP_TIME = Some 30\<rparr>"
  by (simp add: loadConfig_def CONFIG_def user_conf_inverted_def update_conf_def override_def)

lemma loadConfig_incomplete:
  "loadConfig (Some user_conf_incomplete) =
     \<lparr>GPIO_FAN = Some 12, TEMP_THRESHOLD = Some 70, MODE = Some ''pwm'',
      PWM = PWM user_conf_incomplete, SLEEP_TIME = Some 30\<rparr>"
  by (simp add: loadConfig_def CONFIG_def user_conf_incomplete_def update_conf_def override_def)

text \<open>
  Claim C2, as stated, fails: with the \<^verbatim>\<open>pwm\<close> block selected and its bounds inverted, or
  absent, the constructor raises nothing; it has set the pin up and started the PWM
  channel.
\<close>

theorem Fan_init_bounds_counterexample:
  "fst (Fan_init (loadConfig (Some user_conf_inverted)) gpio_initial) =
     Inr \<lparr>config = loadConfig (Some user_conf_inverted), pwm = Some 12, control = PwmControl,
          config_pwm = PWM user_conf_inverted\<rparr> \<and>
   trace (snd (Fan_init (loadConfig (Some user_conf_inverted)) gpio_initial)) =
     [Setmode, Setup 12, PWM_new 12 50, PWM_start 12 0] \<and>
   fst (Fan_init (loadConfig (Some user_conf_incomplete)) gpio_initial) =
     Inr \<lparr>config = loadConfig (Some user_conf_incomplete), pwm = Some 12, control = PwmControl,
          config_pwm = PWM user_conf_incomplete\<rparr> \<and>
   trace (snd (Fan_init (loadConfig (Some user_conf_incomplete)) gpio_initial)) =
     [Setmode, Setup 12, PWM_new 12 50, PWM_start 12 0]"
proof -
  have "Fan_init (loadConfig (Some user_conf_inverted)) gpio_initial =
     (Inr \<lparr>config = loadConfig (Some user_conf_inverted), pwm = Some 12, control = PwmControl,
           config_pwm = PWM user_conf_inverted\<rparr>,
      \<lparr>mode_set = True, configured_out = {12}, driven_high = {}, pwm_exists = {12},
       pwm_duty = [12 \<mapsto> 0], trace = [Setmode, Setup 12, PWM_new 12 50, PWM_start 12 0]\<rparr>)"
    unfolding loadConfig_inverted
    by (simp add: user_conf_inverted_def Fan_init_pwm [where ch = 12 and f = 50 and m = "''pwm''"])
  moreover have "Fan_init (loadConfig (Some user_conf_incomplete)) gpio_initial =
     (Inr \<lparr>config = loadConfig (Some user_conf_incomplete), pwm = Some 12, control = PwmControl,
           config_pwm = PWM user_conf_incomplete\<rparr>,
      \<lparr>mode_set = True, configured_out = {12}, driven_high = {}, pwm_exists = {12},
       pwm_duty = [12 \<mapsto> 0], trace = [Setmode, Setup 12, PWM_new 12 50, PWM_start 12 0]\<rparr>)"
    unfolding loadConfig_incomplete
    by (simp add: user_conf_incomplete_def Fan_init_pwm [where ch = 12 and f = 50 and m = "''pwm''"])
  ultimately show ?thesis by simp
qed

text \<open>
  Claim C2, amended. The constructor does not look at the PWM bounds. For every
  configuration with a port, a \<^verbatim>\<open>mode\<close> key and a \<^verbatim>\<open>pwm\<close> block that holds a positive
  frequency, whatever \<^verbatim>\<open>temp_min\<close>, \<^verbatim>\<open>temp_max\<close> and \<^verbatim>\<open>duty_min\<close> are, construction on
  the fresh library succeeds in PWM mode, with the pin set up as an output and the PWM
  channel started at duty 0. A bound that is missing is met by the first PWM control
  step, which raises \<^verbatim>\<open>KeyError\<close> before it touches the hardware.
\<close>

theorem Fan_init_ignores_bounds:
  assumes "GPIO_FAN cfg = Some ch" and "MODE cfg = Some m" and "PWM cfg = Some cp"
    and "FREQ cp = Some f" and "0 < f"
  shows "\<exists>self hw'. Fan_init cfg gpio_initial = (Inr self, hw')
           \<and> self = \<lparr>config = cfg, pwm = Some ch, control = PwmControl, config_pwm = Some cp\<rparr>
           \<and> mode_set hw' \<and> configured_out hw' = {ch} \<and> pwm_duty hw' ch = Some 0
           \<and> trace hw' = [Setmode, Setup ch, PWM_new ch f, PWM_start ch 0]
           \<and> (TEMP_MAX cp = None \<or> TEMP_MIN cp = None \<or> DUTY_RATIO_MIN cp = None \<longrightarrow>
                (\<forall>cpu_temp hw. pwm_control self cpu_temp hw = (Inl KeyError, hw)))"
proof -
  let ?self = "\<lparr>config = cfg, pwm = Some ch, control = PwmControl, config_pwm = Some cp\<rparr>"
  have "TEMP_MAX cp = None \<or> TEMP_MIN cp = None \<or> DUTY_RATIO_MIN cp = None \<longrightarrow>
          (\<forall>cpu_temp hw. pwm_control ?self cpu_temp hw = (Inl KeyError, hw))"
    by (auto simp: pwm_control_def io_defs split: option.splits)
  with Fan_init_pwm [OF assms] show ?thesis by simp
qed

theorem Fan_init_ignores_bounds_witness:
  "fst (Fan_init (loadConfig (Some user_conf_incomplete)) gpio_initial) =
     Inr \<lparr>config = loadConfig (Some user_conf_incomplete), pwm = Some 12, control = PwmControl,
          config_pwm = PWM user_conf_incomplete\<rparr> \<and>
   TEMP_MAX (the (PWM user_conf_incomplete)) = None \<and>
   pwm_control \<lparr>config = loadConfig (Some user_conf_incomplete), pwm = Some 12,
                control = PwmControl, config_pwm = PWM user_conf_incomplete\<rparr> 45
     (snd (Fan_init (loadConfig (Some user_conf_incomplete)) gpio_initial)) =
     (Inl KeyError, snd (Fan_init (loadConfig (Some user_conf_incomplete)) gpio_initial))"
proof -
  let ?cfg = "loadConfig (Some user_conf_incomplete)"
  let ?cp = "\<lparr>FREQ = Some 50, DUTY_RATIO_MIN = None, TEMP_MAX = None, TEMP_MIN = None\<rparr>"
  have a: "GPIO_FAN ?cfg = Some 12" "MODE ?cfg = Some ''pwm''" "PWM ?cfg = Some ?cp"
    "FREQ ?cp = Some 50" "(0::rat) < 50"
    unfolding loadConfig_incomplete by (simp_all add: user_conf_incomplete_def)
  have p: "PWM user_conf_incomplete = Some ?cp" by (simp add: user_conf_incomplete_def)
  from Fan_init_ignores_bounds [OF a] show ?thesis by (auto simp: p)
qed

text \<open>What a successful construction on the fresh library looks like, in either mode.\<close>

lemma Fan_init_cases:
  assumes "Fan_init cfg gpio_initial = (Inr self, hw1)"
  obtains (on_off) ch where "GPIO_FAN cfg = Some ch"
      "self = \<lparr>config = cfg, pwm = None, control = OnOffControl, config_pwm = None\<rparr>"
      "hw1 = \<lparr>mode_set = True, configured_out = {ch}, driven_high = {}, pwm_exists = {},
              pwm_duty = Map.empty, trace = [Setmode, Setup ch]\<rparr>"
  | (pwm) ch cp f where "GPIO_FAN cfg = Some ch"
      "self = \<lparr>config = cfg, pwm = Some ch, control = PwmControl, config_pwm = Some cp\<rparr>"
      "hw1 = \<lparr>mode_set = True, configured_out = {ch}, driven_high = {}, pwm_exists = {ch},
              pwm_duty = [ch \<mapsto> 0], trace = [Setmode, Setup ch, PWM_new ch f, PWM_start ch 0]\<rparr>"
proof -
  from assms obtain ch where ch: "GPIO_FAN cfg = Some ch"
    by (cases "GPIO_FAN cfg") (auto simp: Fan_init_def io_defs gpio_defs)
  show thesis
  proof (cases "MODE cfg = None \<or> PWM cfg = None")
    case True
    from Fan_init_on_off [OF ch True] assms on_off [OF ch] show thesis by simp
  next
    case False
    then obtain m cp where m: "MODE cfg = Some m" and cp: "PWM cfg = Some cp" by auto
    from assms ch m cp obtain f where f: "FREQ cp = Some f"
      by (cases "FREQ cp") (auto simp: Fan_init_def io_defs gpio_defs gpio_initial_def)
    from assms ch m cp f have "0 < f"
      by (cases "0 < f") (auto simp: Fan_init_def io_defs gpio_defs gpio_initial_def Let_def)
    from Fan_init_pwm [OF ch m cp f this] assms pwm [OF ch] show thesis by simp
  qed
qed

lemmas fan_defs = clean_up_def off_def on_def on_off_control_def pwm_control_def apply_control_def

text \<open>
  Claim C3, as stated, fails: the second \<^verbatim>\<open>clean_up()\<close> writes the pin after
  \<^verbatim>\<open>GPIO.cleanup()\<close> has released it, and \<^verbatim>\<open>GPIO.output\<close> raises \<^verbatim>\<open>RuntimeError\<close>, in on/off
  mode and in PWM mode.
\<close>

theorem clean_up_second_call_counterexample:
  "fst (clean_up \<lparr>config = CONFIG, pwm = None, control = OnOffControl, config_pwm = None\<rparr>
         (snd (Fan_init CONFIG gpio_initial))) = Inr () \<and>
   fst (clean_up \<lparr>config = CONFIG, pwm = None, control = OnOffControl, config_pwm = None\<rparr>
         (snd (clean_up \<lparr>config = CONFIG, pwm = None, control = OnOffControl, config_pwm = None\<rparr>
                (snd (Fan_init CONFIG gpio_initial))))) = Inl RuntimeError \<and>
   fst (clean_up \<lparr>config = CONFIG\<lparr>MODE := Some ''pwm''\<rparr>, pwm = Some 12, control = PwmControl,
                  config_pwm = PWM CONFIG\<rparr>
         (snd (Fan_init (CONFIG\<lparr>MODE := Some ''pwm''\<rparr>) gpio_initial))) = Inr () \<and>
   fst (clean_up \<lparr>config = CONFIG\<lparr>MODE := Some ''pwm''\<rparr>, pwm = Some 12, control = PwmControl,
                  config_pwm = PWM CONFIG\<rparr>
         (snd (clean_up \<lparr>config = CONFIG\<lparr>MODE := Some ''pwm''\<rparr>, pwm = Some 12,
                        control = PwmControl, config_pwm = PWM CONFIG\<rparr>
                (snd (Fan_init (CONFIG\<lparr>MODE := Some ''pwm''\<rparr>) gpio_initial))))) =
     Inl RuntimeError"
proof -
  have 1: "Fan_init CONFIG gpio_initial =
      (Inr \<lparr>config = CONFIG, pwm = None, control = OnOffControl, config_pwm = None\<rparr>,
       \<lparr>mode_set = True, configured_out = {12}, driven_high = {}, pwm_exists = {},
        pwm_duty = Map.empty, trace = [Setmode, Setup 12]\<rparr>)"
    by (rule Fan_init_on_off) (simp_all add: CONFIG_def)
  have 2: "Fan_init (CONFIG\<lparr>MODE := Some ''pwm''\<rparr>) gpio_initial =
      (Inr \<lparr>config = CONFIG\<lparr>MODE := Some ''pwm''\<rparr>, pwm = Some 12, control = PwmControl,
            config_pwm = PWM CONFIG\<rparr>,
       \<lparr>mode_set = True, configured_out = {12}, driven_high = {}, pwm_exists = {12},
        pwm_duty = [12 \<mapsto> 0], trace = [Setmode, Setup 12, PWM_new 12 50, PWM_start 12 0]\<rparr>)"
    by (simp add: CONFIG_def Fan_init_pwm [where ch = 12 and f = 50 and m = "''pwm''"])
  have g: "GPIO_FAN CONFIG = Some 12" by (simp add: CONFIG_def)
  show ?thesis
    unfolding 1 2 by (simp add: fan_defs io_defs gpio_defs g)
qed

text \<open>
  Claim C3, amended. In every state in which the pin is set up as \<^verbatim>\<open>Fan.__init__\<close> leaves
  it, in on/off mode or in PWM mode, whatever the pin level and the duty are by then, the
  first \<^verbatim>\<open>clean_up()\<close> raises nothing, stops the PWM if there is one, writes the pin off
  and releases the GPIO. \<^verbatim>\<open>clean_up\<close> keeps no record of having run: a second call stops
  the PWM again, then raises \<^verbatim>\<open>RuntimeError\<close> at the write of the released pin; the
  hardware stays in the same terminal state.
\<close>

theorem clean_up_once_then_error:
  assumes "GPIO_FAN (config self) = Some ch" and "mode_set hw" and "ch \<in> configured_out hw"
  shows "\<exists>hw2 hw3. clean_up self hw = (Inr (), hw2)
           \<and> trace hw2 = trace hw @ (case pwm self of None \<Rightarrow> [] | Some p \<Rightarrow> [PWM_stop p])
                                  @ [Output ch False, Cleanup]
           \<and> \<not> mode_set hw2 \<and> configured_out hw2 = {}
           \<and> ch \<notin> driven_high hw2 \<and> driven_high hw2 = driven_high hw - {ch}
           \<and> (\<forall>p. pwm self = Some p \<longrightarrow> pwm_duty hw2 p = None)
           \<and> clean_up self hw2 = (Inl RuntimeError, hw3)
           \<and> \<not> mode_set hw3 \<and> configured_out hw3 = {} \<and> driven_high hw3 = driven_high hw2
           \<and> pwm_duty hw3 = pwm_duty hw2"
  using assms by (cases "pwm self") (simp_all add: fan_defs io_defs gpio_defs)

theorem clean_up_once_then_error_witness:
  "fst (on_off_control \<lparr>config = CONFIG, pwm = None, control = OnOffControl, config_pwm = None\<rparr> 71
         (snd (Fan_init CONFIG gpio_initial))) = Inr () \<and>
   12 \<in> driven_high (snd (on_off_control
         \<lparr>config = CONFIG, pwm = None, control = OnOffControl, config_pwm = None\<rparr> 71
         (snd (Fan_init CONFIG gpio_initial)))) \<and>
   fst (clean_up \<lparr>config = CONFIG, pwm = None, control = OnOffControl, config_pwm = None\<rparr>
         (snd (on_off_control
           \<lparr>config = CONFIG, pwm = None, control = OnOffControl, config_pwm = None\<rparr> 71
           (snd (Fan_init CONFIG gpio_initial))))) = Inr () \<and>
   12 \<notin> driven_high (snd (clean_up
         \<lparr>config = CONFIG, pwm = None, control = OnOffControl, config_pwm = None\<rparr>
         (snd (on_off_control
           \<lparr>config = CONFIG, pwm = None, control = OnOffControl, config_pwm = None\<rparr> 71
           (snd (Fan_init CONFIG gpio_initial))))))"
proof -
  let ?self = "\<lparr>config = CONFIG, pwm = None, control = OnOffControl, config_pwm = None\<rparr>"
  let ?hw1 = "\<lparr>mode_set = True, configured_out = {12}, driven_high = {}, pwm_exists = {},
        pwm_duty = Map.empty, trace = [Setmode, Setup 12]\<rparr>"
  let ?hw = "\<lparr>mode_set = True, configured_out = {12}, driven_high = {12}, pwm_exists = {},
        pwm_duty = Map.empty, trace = [Setmode, Setup 12, Output 12 True]\<rparr>"
  have 1: "Fan_init CONFIG gpio_initial = (Inr ?self, ?hw1)"
    by (rule Fan_init_on_off) (simp_all add: CONFIG_def)
  have g: "GPIO_FAN (config ?self) = Some 12" by (simp add: CONFIG_def)
  have 2: "on_off_control ?self 71 ?hw1 = (Inr (), ?hw)"
    using g by (simp add: fan_defs io_defs gpio_defs CONFIG_def)
  have a: "mode_set ?hw" "12 \<in> configured_out ?hw" by simp_all
  from clean_up_once_then_error [OF g a]
  obtain hw2 where "clean_up ?self ?hw = (Inr (), hw2)" and "12 \<notin> driven_high hw2" by blast
  then show ?thesis by (simp add: 1 2)
qed

text \<open>
  Claim C1. The claim is what the \<^verbatim>\<open>KeyboardInterrupt\<close> and \<^verbatim>\<open>TypeError\<close> clauses of \<^verbatim>\<open>main\<close>
  do, and the last clause does not: after a reading of 75.1 degrees has switched the fan
  on, a read failure (\<^verbatim>\<open>IOError\<close>) ends \<^verbatim>\<open>main\<close> with the pin still driven high and the
  GPIO still claimed, no call of \<^verbatim>\<open>clean_up\<close> in the trace; an interrupt at the same
  point ends it with the pin off and the GPIO released.
\<close>

theorem main_read_failure_skips_clean_up:
  "main None [Sample (Some [''75123\<newline>'']), Sample None] gpio_initial =
     (Returned, \<lparr>mode_set = True, configured_out = {12}, driven_high = {12}, pwm_exists = {},
                 pwm_duty = Map.empty, trace = [Setmode, Setup 12, Output 12 True]\<rparr>) \<and>
   main None [Sample (Some [''75123\<newline>'']), Interrupt] gpio_initial =
     (Returned, \<lparr>mode_set = False, configured_out = {}, driven_high = {}, pwm_exists = {},
                 pwm_duty = Map.empty,
                 trace = [Setmode, Setup 12, Output 12 True, Output 12 False, Cleanup]\<rparr>)"
proof -
  have i: "Fan_init CONFIG gpio_initial =
      (Inr \<lparr>config = CONFIG, pwm = None, control = OnOffControl, config_pwm = None\<rparr>,
       \<lparr>mode_set = True, configured_out = {12}, driven_high = {}, pwm_exists = {},
        pwm_duty = Map.empty, trace = [Setmode, Setup 12]\<rparr>)"
    by (rule Fan_init_on_off) (simp_all add: CONFIG_def)
  have c: "GPIO_FAN CONFIG = Some 12" "TEMP_THRESHOLD CONFIG = Some 70"
    "SLEEP_TIME CONFIG = Some 30"
    by (simp_all add: CONFIG_def)
  show ?thesis
    by (simp add: main_def loadConfig_def i sample_75123 sample_unreadable c handler_def
        handle_exn_def fan_defs io_defs gpio_defs)
qed

end
